theory Spec2Isabelle
  imports Main "HOL-Library.Sublist"
begin

section \<open>Data model\<close>

text \<open>
  The cards, fields, labels and attachments come from the package
  \<^verbatim>\<open>github.com/eduncan911/safeincloud\<close>; \<^verbatim>\<open>main.go\<close> reads the struct fields
  listed below and nothing else. Go strings and byte slices are byte sequences, so both
  are lists of \<^typ>\<open>char\<close>. The type of a label identifier is not fixed by
  \<^verbatim>\<open>main.go\<close> (it is only compared with \<^verbatim>\<open>==\<close>), so it is the type parameter
  \<^typ>\<open>'i\<close>.
\<close>

type_synonym bytes = "char list"

record Field =
  Field_Name :: string
  Field_FieldType :: string
  Field_Value :: string

record File =
  File_Name :: string
  File_Value :: bytes

record Image =
  Image_Value :: bytes

record 'i Label =
  Label_ID :: 'i
  Label_Name :: string

record 'i Card =
  Card_ID :: string
  Card_Title :: string
  Card_Fields :: "Field list"
  Card_Notes :: string
  Card_Star :: bool
  Card_LabelIDs :: "'i list"
  Card_Files :: "File list"
  Card_Images :: "Image list"
  Card_Deleted :: bool
  Card_Template :: bool

record 'i Database =
  Database_Labels :: "'i Label list"
  Database_Cards :: "'i Card list"

text \<open>\<^verbatim>\<open>type site struct\<close> and \<^verbatim>\<open>type note struct\<close>; a field never assigned holds
  Go's zero value, the empty string.\<close>

record site =
  site_URL :: string
  site_Type :: string
  site_Username :: string
  site_Password :: string
  site_Hostname :: string
  site_Extra :: string
  site_Name :: string
  site_Grouping :: string
  site_Fav :: string

record note_rec =
  note_URL :: string
  note_Username :: string
  note_Password :: string
  note_Extra :: string
  note_Name :: string
  note_Grouping :: string
  note_Fav :: string

text \<open>
  The state the program changes: the two global slices \<^verbatim>\<open>importedSites\<close> and
  \<^verbatim>\<open>importedNotes\<close>, and the files written so far (path and content, oldest first).
  Logging through \<^verbatim>\<open>glog\<close> is left out.
\<close>

record world =
  importedSites :: "site list"
  importedNotes :: "note_rec list"
  written :: "(string \<times> bytes) list"

text \<open>
  What \<^verbatim>\<open>main.go\<close> takes from outside the repository at run time. The operating
  system gives the path separator and decides whether a call of \<^verbatim>\<open>os.MkdirAll\<close> or
  \<^verbatim>\<open>ioutil.WriteFile\<close> succeeds (\<^term>\<open>True\<close>), given the files written so far and
  the path. The standard library's Unicode tables decide how \<^verbatim>\<open>strings.EqualFold\<close>
  compares two strings from the first byte outside ASCII on: \<open>unicode_EqualFold\<close> is
  that part of \<^verbatim>\<open>strings.EqualFold\<close> (its code after the label \<^verbatim>\<open>hasUnicode\<close>) as a
  function of the two remaining strings.
\<close>

record os =
  os_PathSeparator :: char
  os_MkdirAll :: "(string \<times> bytes) list \<Rightarrow> string \<Rightarrow> bool"
  os_WriteFile :: "(string \<times> bytes) list \<Rightarrow> string \<Rightarrow> bool"
  unicode_EqualFold :: "string \<Rightarrow> string \<Rightarrow> bool"

text \<open>An error is the failure of one of the two system calls, wrapped by
  \<^verbatim>\<open>errors.Wrap\<close> with a message on the way up.\<close>

datatype error = MkdirAllError | WriteFileError | Wrap error string


section \<open>Functions of the Go standard library\<close>

text \<open>A line feed; \<^verbatim>\<open>extraFormat\<close> and the other raw string literals of
  \<^verbatim>\<open>main.go\<close> contain it.\<close>

definition LF :: string where
  "LF = [CHR 0x0A]"

text \<open>
  \<^verbatim>\<open>strings.Replace(s, old, new, -1)\<close>: every non-overlapping occurrence of
  \<^verbatim>\<open>old\<close>, from the left, is replaced. \<^verbatim>\<open>main.go\<close> calls it with a non-empty
  \<^verbatim>\<open>old\<close> only; for an empty \<^verbatim>\<open>old\<close> this function returns \<^verbatim>\<open>s\<close>, which is not
  what Go does.
\<close>

function ReplaceAll :: "string \<Rightarrow> string \<Rightarrow> string \<Rightarrow> string" where
  "ReplaceAll [] old new = []"
| "ReplaceAll (c # cs) old new =
     (if old \<noteq> [] \<and> prefix old (c # cs)
      then new @ ReplaceAll (drop (length old) (c # cs)) old new
      else c # ReplaceAll cs old new)"
  by pat_completeness auto
termination
  by (relation "measure (\<lambda>(s, old, new). length s)") auto

text \<open>\<^verbatim>\<open>strings.Replace(s, old, new, 1)\<close>: only the first occurrence is replaced.
  \<^verbatim>\<open>main.go\<close> never calls it; it states what a first-match-only replacement is.\<close>

fun ReplaceFirst :: "string \<Rightarrow> string \<Rightarrow> string \<Rightarrow> string" where
  "ReplaceFirst [] old new = []"
| "ReplaceFirst (c # cs) old new =
     (if old \<noteq> [] \<and> prefix old (c # cs)
      then new @ drop (length old) (c # cs)
      else c # ReplaceFirst cs old new)"

text \<open>\<^verbatim>\<open>strings.Join\<close>.\<close>

fun Join :: "string list \<Rightarrow> string \<Rightarrow> string" where
  "Join [] sep = []"
| "Join [x] sep = x"
| "Join (x # y # ys) sep = x @ sep @ Join (y # ys) sep"

text \<open>
  \<^verbatim>\<open>strings.EqualFold\<close>. Its first loop walks both strings byte by byte while both
  bytes are ASCII: equal bytes match, and so do a capital letter \<^verbatim>\<open>A\<close> to \<^verbatim>\<open>Z\<close> and
  the byte 32 above it; any other pair ends the comparison with false. When the shorter
  string ends, the result is whether both have ended. At the first byte from \<^verbatim>\<open>0x80\<close>
  up in either string the function jumps to \<^verbatim>\<open>hasUnicode\<close>, which compares the two
  remaining strings rune by rune with \<^verbatim>\<open>unicode.SimpleFold\<close>; that part is the
  parameter \<open>uni\<close>.
\<close>

fun EqualFold :: "(string \<Rightarrow> string \<Rightarrow> bool) \<Rightarrow> string \<Rightarrow> string \<Rightarrow> bool" where
  "EqualFold uni [] [] = True"
| "EqualFold uni (a # s) (b # t) =
     (if 128 \<le> (of_char a :: nat) \<or> 128 \<le> (of_char b :: nat) then uni (a # s) (b # t)
      else if (of_char b :: nat) = of_char a then EqualFold uni s t
      else if 65 \<le> min (of_char a :: nat) (of_char b) \<and> min (of_char a :: nat) (of_char b) \<le> 90 \<and>
              max (of_char a :: nat) (of_char b) = min (of_char a) (of_char b) + 32
           then EqualFold uni s t
           else False)"
| "EqualFold uni _ _ = False"


section \<open>Labels and the destination folder\<close>

text \<open>\<^verbatim>\<open>cardLabels\<close>: for each label id of the card, in the card's order, the names of
  all labels of the database with that id.\<close>

fun labelsWithID :: "'i \<Rightarrow> 'i Label list \<Rightarrow> string list" where
  "labelsWithID i [] = []"
| "labelsWithID i (label # ls) =
     (if Label_ID label = i then Label_Name label # labelsWithID i ls
      else labelsWithID i ls)"

fun cardLabelsLoop :: "'i Label list \<Rightarrow> 'i list \<Rightarrow> string list" where
  "cardLabelsLoop dbLabels [] = []"
| "cardLabelsLoop dbLabels (i # ids) = labelsWithID i dbLabels @ cardLabelsLoop dbLabels ids"

definition cardLabels :: "'i Database \<Rightarrow> 'i Card \<Rightarrow> string list" where
  "cardLabels db c = cardLabelsLoop (Database_Labels db) (Card_LabelIDs c)"

text \<open>\<^verbatim>\<open>primaryCardLabel\<close>. The inner loop over the labels reports whether it hit its
  \<^verbatim>\<open>return f\<close>; the outer loop over the priority folders returns that \<^verbatim>\<open>f\<close>.\<close>

fun anyLabelFolds :: "os \<Rightarrow> string \<Rightarrow> string list \<Rightarrow> bool" where
  "anyLabelFolds sys f [] = False"
| "anyLabelFolds sys f (l # ls) =
     (if EqualFold (unicode_EqualFold sys) f l then True else anyLabelFolds sys f ls)"

fun priorityLoop :: "os \<Rightarrow> string list \<Rightarrow> string list \<Rightarrow> string option" where
  "priorityLoop sys [] labels = None"
| "priorityLoop sys (f # pf) labels =
     (if anyLabelFolds sys f labels then Some f else priorityLoop sys pf labels)"

definition primaryCardLabel ::
  "os \<Rightarrow> 'i Database \<Rightarrow> 'i Card \<Rightarrow> string list \<Rightarrow> string \<Rightarrow> string" where
  "primaryCardLabel sys db c pf df =
     (let labels = cardLabels db c in
      if length labels = 0 then df
      else case priorityLoop sys pf labels of
             Some f \<Rightarrow> f
           | None \<Rightarrow> df @ '' - '' @ labels ! 0)"


section \<open>Attachments\<close>

text \<open>\<^verbatim>\<open>strconv.Itoa\<close> on an index of a \<^verbatim>\<open>range\<close> loop, which is never negative.\<close>

definition digit :: "nat \<Rightarrow> char" where
  "digit d = char_of (48 + d)"

function Itoa :: "nat \<Rightarrow> string" where
  "Itoa n = (if n < 10 then [digit n] else Itoa (n div 10) @ [digit (n mod 10)])"
  by pat_completeness auto
termination
  by (relation "measure (\<lambda>n. n)") auto

declare Itoa.simps [simp del]

text \<open>
  \<^verbatim>\<open>url.QueryEscape\<close> of \<^verbatim>\<open>net/url\<close>: a letter, a digit and each of
  \<^verbatim>\<open>- _ . ~\<close> stay; a space becomes \<^verbatim>\<open>+\<close>; every other byte becomes \<^verbatim>\<open>%\<close> and its
  two upper-case hexadecimal digits.
\<close>

definition shouldEscape :: "char \<Rightarrow> bool" where
  "shouldEscape c =
     (let n = (of_char c :: nat) in
      if (97 \<le> n \<and> n \<le> 122) \<or> (65 \<le> n \<and> n \<le> 90) \<or> (48 \<le> n \<and> n \<le> 57) then False
      else if c = CHR ''-'' \<or> c = CHR ''_'' \<or> c = CHR ''.'' \<or> c = CHR ''~'' then False
      else True)"

definition upperhex :: "nat \<Rightarrow> char" where
  "upperhex d = ''0123456789ABCDEF'' ! d"

fun QueryEscape :: "string \<Rightarrow> string" where
  "QueryEscape [] = []"
| "QueryEscape (c # cs) =
     (if shouldEscape c then
        (if c = CHR '' '' then CHR ''+'' # QueryEscape cs
         else CHR ''%'' # upperhex ((of_char c :: nat) div 16)
                # upperhex ((of_char c :: nat) mod 16) # QueryEscape cs)
      else c # QueryEscape cs)"

text \<open>\<^verbatim>\<open>dumpfile\<close>. The result is the error, if any, and the state reached: Go's
  globals and the disk keep what was done before an error.\<close>

definition dumpfile :: "os \<Rightarrow> string \<Rightarrow> bytes \<Rightarrow> world \<Rightarrow> error option \<times> world" where
  "dumpfile sys filename data w =
     (let cfilename = QueryEscape filename;
          cfilename = ReplaceAll cfilename ''%20'' '' '';
          dir = ''attachments''
      in if \<not> os_MkdirAll sys (written w) dir
         then (Some (Wrap MkdirAllError ''os.MkdirAll returned error''), w)
         else let fullpath = dir @ [os_PathSeparator sys] @ cfilename
              in if \<not> os_WriteFile sys (written w) fullpath
                 then (Some (Wrap WriteFileError ''ioutil.WriteFile returned error''), w)
                 else (None, w\<lparr>written := written w @ [(fullpath, data)]\<rparr>))"

text \<open>\<^verbatim>\<open>extractAttachments\<close>: the loop over the files and the loop over the images,
  each with its index \<^verbatim>\<open>i\<close>.\<close>

fun filesLoop :: "os \<Rightarrow> string \<Rightarrow> nat \<Rightarrow> File list \<Rightarrow> world \<Rightarrow> error option \<times> world" where
  "filesLoop sys title i [] w = (None, w)"
| "filesLoop sys title i (file # files) w =
     (let name = title @ ''_'' @ Itoa i @ ''_'' @ File_Name file
      in case dumpfile sys name (File_Value file) w of
           (Some err, w') \<Rightarrow> (Some (Wrap err ''dumpfile for files returned error''), w')
         | (None, w') \<Rightarrow> filesLoop sys title (i + 1) files w')"

fun imagesLoop :: "os \<Rightarrow> string \<Rightarrow> nat \<Rightarrow> Image list \<Rightarrow> world \<Rightarrow> error option \<times> world" where
  "imagesLoop sys title i [] w = (None, w)"
| "imagesLoop sys title i (img # images) w =
     (let name = title @ ''_'' @ Itoa i @ ''.jpg''
      in case dumpfile sys name (Image_Value img) w of
           (Some err, w') \<Rightarrow> (Some (Wrap err ''dumpfile for images returned error''), w')
         | (None, w') \<Rightarrow> imagesLoop sys title (i + 1) images w')"

definition extractAttachments :: "os \<Rightarrow> 'i Card \<Rightarrow> string \<Rightarrow> world \<Rightarrow> error option \<times> world" where
  "extractAttachments sys c title w =
     (case filesLoop sys title 0 (Card_Files c) w of
        (Some err, w') \<Rightarrow> (Some err, w')
      | (None, w') \<Rightarrow> imagesLoop sys title 0 (Card_Images c) w')"


section \<open>Sites and secure notes\<close>

text \<open>\<^verbatim>\<open>fmt.Sprintf(extraFormat, name, value)\<close> with
  \<^verbatim>\<open>extraFormat\<close> the two verbs \<^verbatim>\<open>%s: %s\<close> and two line feeds.\<close>

definition extraFormat :: "string \<Rightarrow> string \<Rightarrow> string" where
  "extraFormat name val = name @ '': '' @ val @ LF @ LF"

text \<open>The tail both kinds of record share: two line feeds and \<^verbatim>\<open>Labels: \<close> with the
  joined labels, when the joined string is not empty.\<close>

definition withLabels :: "'i Database \<Rightarrow> 'i Card \<Rightarrow> string \<Rightarrow> string" where
  "withLabels db c extra =
     (let labels = Join (cardLabels db c) '', ''
      in if length labels > 0 then extra @ LF @ LF @ ''Labels: '' @ labels else extra)"

text \<open>\<^verbatim>\<open>importSite\<close>. Its loop over the fields skips a field whose value is the url,
  the login or the password, and appends the formatted field to \<^verbatim>\<open>s.Extra\<close>
  otherwise.\<close>

fun siteExtraLoop :: "string \<Rightarrow> string \<Rightarrow> string \<Rightarrow> Field list \<Rightarrow> string \<Rightarrow> string" where
  "siteExtraLoop url login pass [] extra = extra"
| "siteExtraLoop url login pass (f # fs) extra =
     (if Field_Value f = url \<or> Field_Value f = login \<or> Field_Value f = pass
      then siteExtraLoop url login pass fs extra
      else siteExtraLoop url login pass fs (extra @ extraFormat (Field_Name f) (Field_Value f)))"

definition importSite ::
  "os \<Rightarrow> 'i Database \<Rightarrow> 'i Card \<Rightarrow> string list \<Rightarrow> string \<Rightarrow>
   string \<Rightarrow> string \<Rightarrow> string \<Rightarrow> string \<Rightarrow> world \<Rightarrow> error option \<times> world" where
  "importSite sys db c pf df title login pass url w =
     (let s = \<lparr>site_URL = url, site_Type = [], site_Username = login, site_Password = pass,
               site_Hostname = [], site_Extra = [], site_Name = title, site_Grouping = [],
               site_Fav = []\<rparr>;
          s = (if Card_Star c then s\<lparr>site_Fav := ''1''\<rparr> else s);
          s = s\<lparr>site_Grouping := primaryCardLabel sys db c pf df\<rparr>;
          s = s\<lparr>site_Extra := siteExtraLoop url login pass (Card_Fields c) (site_Extra s)\<rparr>;
          s = s\<lparr>site_Extra := site_Extra s @ Card_Notes c\<rparr>;
          s = s\<lparr>site_Extra := withLabels db c (site_Extra s)\<rparr>
      in case extractAttachments sys c title w of
           (Some err, w') \<Rightarrow> (Some (Wrap err ''extractAttachments returned error''), w')
         | (None, w') \<Rightarrow> (None, w'\<lparr>importedSites := importedSites w' @ [s]\<rparr>))"

text \<open>\<^verbatim>\<open>importSecureNote\<close>. Its \<^verbatim>\<open>switch\<close> on the grouping is the table
  \<open>noteTypes\<close> of its cases, top to bottom, each with the prefix the case assigns; a
  grouping that equals no case leaves the prefix empty. The loop over the fields appends
  every field.\<close>

definition noteTypes :: "(string \<times> string) list" where
  "noteTypes =
     [(''Credit Cards'', ''NoteType:Credit Card''),
      (''Banking'', ''NoteType:Bank Account''),
      (''Databases'', ''NoteType:Database''),
      (''Licenses'', ''NoteType:Driver'' @ [CHR 0x27] @ ''s License''),
      (''Insurance'', ''NoteType:Insurance''),
      (''Membership'', ''NoteType:Membership''),
      (''Passport'', ''NoteType:Passport''),
      (''Servers'', ''NoteType:Server''),
      (''Software'', ''NoteType:Software License'')]"

definition noteTypePrefix :: "string \<Rightarrow> string" where
  "noteTypePrefix grouping = (case map_of noteTypes grouping of Some p \<Rightarrow> p | None \<Rightarrow> [])"

fun noteExtraLoop :: "Field list \<Rightarrow> string \<Rightarrow> string" where
  "noteExtraLoop [] extra = extra"
| "noteExtraLoop (f # fs) extra =
     noteExtraLoop fs (extra @ extraFormat (Field_Name f) (Field_Value f))"

definition importSecureNote ::
  "os \<Rightarrow> 'i Database \<Rightarrow> 'i Card \<Rightarrow> string list \<Rightarrow> string \<Rightarrow> world \<Rightarrow> error option \<times> world" where
  "importSecureNote sys db c pf df w =
     (let title = Card_Title c;
          title = (if title = [] then ''SecureNote '' @ Card_ID c else title);
          n = \<lparr>note_URL = ''http://sn'', note_Username = [], note_Password = [],
               note_Extra = [], note_Name = title, note_Grouping = [], note_Fav = []\<rparr>;
          n = (if Card_Star c then n\<lparr>note_Fav := ''1''\<rparr> else n);
          n = n\<lparr>note_Grouping := primaryCardLabel sys db c pf df\<rparr>;
          pre = noteTypePrefix (note_Grouping n);
          n = (if pre \<noteq> [] then n\<lparr>note_Extra := pre @ LF @ LF\<rparr> else n);
          n = n\<lparr>note_Extra := noteExtraLoop (Card_Fields c) (note_Extra n)\<rparr>;
          n = n\<lparr>note_Extra := note_Extra n @ Card_Notes c\<rparr>;
          n = n\<lparr>note_Extra := withLabels db c (note_Extra n)\<rparr>
      in case extractAttachments sys c title w of
           (Some err, w') \<Rightarrow> (Some (Wrap err ''extractAttachments returned error''), w')
         | (None, w') \<Rightarrow> (None, w'\<lparr>importedNotes := importedNotes w' @ [n]\<rparr>))"


section \<open>Classifying a card\<close>

text \<open>The two inner loops of \<^verbatim>\<open>parse\<close> over \<^verbatim>\<open>c.Fields[i:]\<close>: the value of the
  first field of the wanted type with a value, or the empty string the variable was
  declared with.\<close>

fun scanPassword :: "Field list \<Rightarrow> string" where
  "scanPassword [] = []"
| "scanPassword (fi # fs) =
     (if Field_FieldType fi = ''password'' \<and> Field_Value fi \<noteq> [] then Field_Value fi
      else scanPassword fs)"

fun scanWebsite :: "Field list \<Rightarrow> string" where
  "scanWebsite [] = []"
| "scanWebsite (fi # fs) =
     (if Field_FieldType fi = ''website'' \<and> Field_Value fi \<noteq> [] then Field_Value fi
      else scanWebsite fs)"

text \<open>
  The outer loop of \<^verbatim>\<open>parse\<close>. Its list argument is \<^verbatim>\<open>c.Fields[i:]\<close>, whose head is
  the field \<^verbatim>\<open>f\<close> of the iteration; the flag is \<^verbatim>\<open>importedSite\<close>. An error of
  \<^verbatim>\<open>importSite\<close> ends the loop.
\<close>

fun parseLoop ::
  "os \<Rightarrow> 'i Database \<Rightarrow> 'i Card \<Rightarrow> string list \<Rightarrow> string \<Rightarrow>
   Field list \<Rightarrow> bool \<Rightarrow> world \<Rightarrow> error option \<times> bool \<times> world" where
  "parseLoop sys db c pf df [] importedSite w = (None, importedSite, w)"
| "parseLoop sys db c pf df (f # fs) importedSite w =
     (if Field_FieldType f = ''login'' \<and> Field_Value f \<noteq> [] then
        (let login = Field_Value f;
             pass = scanPassword (f # fs);
             url = scanWebsite (f # fs)
         in if pass = [] \<or> url = [] then parseLoop sys db c pf df fs importedSite w
            else
              let title = Card_Title c;
                  title = (if title = []
                           then ReplaceAll (ReplaceAll url ''http://'' []) ''https://'' []
                           else title)
              in if title = [] then parseLoop sys db c pf df fs importedSite w
                 else case importSite sys db c pf df title login pass url w of
                        (Some err, w') \<Rightarrow>
                          (Some (Wrap err ''importSite returned error''), importedSite, w')
                      | (None, w') \<Rightarrow> parseLoop sys db c pf df fs True w')
      else parseLoop sys db c pf df fs importedSite w)"

definition parse ::
  "os \<Rightarrow> 'i Database \<Rightarrow> 'i Card \<Rightarrow> string list \<Rightarrow> string \<Rightarrow> world \<Rightarrow> error option \<times> world" where
  "parse sys db c pf df w =
     (case parseLoop sys db c pf df (Card_Fields c) False w of
        (Some err, importedSite, w') \<Rightarrow> (Some err, w')
      | (None, importedSite, w') \<Rightarrow>
          if importedSite then (None, w')
          else (case importSecureNote sys db c pf df w' of
                  (Some err, w'') \<Rightarrow> (Some (Wrap err ''importSecureNote returned error''), w'')
                | (None, w'') \<Rightarrow> (None, w'')))"


section \<open>Describing what is emitted\<close>

text \<open>
  The descriptions that the theorems compare the program with. \<open>firstValued ty fs\<close> is
  the first field of \<open>fs\<close> of type \<open>ty\<close> with a value that is not empty. For the field at
  index \<open>i\<close> of a card, \<open>loginAt\<close> is its value, and \<open>passwordAt\<close> and \<open>websiteAt\<close>
  are the values of the first valued password and website among the fields from index
  \<open>i\<close> on (empty when there is none).
\<close>

definition firstValued :: "string \<Rightarrow> Field list \<Rightarrow> Field option" where
  "firstValued ty fs = find (\<lambda>f. Field_FieldType f = ty \<and> Field_Value f \<noteq> []) fs"

definition valueOf :: "Field option \<Rightarrow> string" where
  "valueOf r = (case r of None \<Rightarrow> [] | Some f \<Rightarrow> Field_Value f)"

definition loginAt :: "'i Card \<Rightarrow> nat \<Rightarrow> string" where
  "loginAt c i = Field_Value (Card_Fields c ! i)"

definition passwordAt :: "'i Card \<Rightarrow> nat \<Rightarrow> string" where
  "passwordAt c i = valueOf (firstValued ''password'' (drop i (Card_Fields c)))"

definition websiteAt :: "'i Card \<Rightarrow> nat \<Rightarrow> string" where
  "websiteAt c i = valueOf (firstValued ''website'' (drop i (Card_Fields c)))"

text \<open>The title a site gets: the card's title, or for a card without title the website
  after the two replacements of \<^verbatim>\<open>parse\<close>.\<close>

definition stripScheme :: "string \<Rightarrow> string" where
  "stripScheme url = ReplaceAll (ReplaceAll url ''http://'' []) ''https://'' []"

definition titleAt :: "'i Card \<Rightarrow> nat \<Rightarrow> string" where
  "titleAt c i = (if Card_Title c = [] then stripScheme (websiteAt c i) else Card_Title c)"

text \<open>A qualifying login is an index \<open>i\<close> of a field of type login with a value, for which
  a valued password and a valued website exist from \<open>i\<close> on and the title is not empty.
  \<open>qualifyingLogins\<close> lists these indices in field order.\<close>

definition qualifies :: "'i Card \<Rightarrow> nat \<Rightarrow> bool" where
  "qualifies c i \<longleftrightarrow>
     Field_FieldType (Card_Fields c ! i) = ''login'' \<and> loginAt c i \<noteq> [] \<and>
     firstValued ''password'' (drop i (Card_Fields c)) \<noteq> None \<and>
     firstValued ''website'' (drop i (Card_Fields c)) \<noteq> None \<and>
     titleAt c i \<noteq> []"

definition qualifyingLogins :: "'i Card \<Rightarrow> nat list" where
  "qualifyingLogins c = filter (qualifies c) [0 ..< length (Card_Fields c)]"

text \<open>The letters of a string without regard to case, as byte codes: the code of a
  capital letter \<^verbatim>\<open>A\<close> to \<^verbatim>\<open>Z\<close> is replaced by the code of its small letter.
  \<open>isASCII\<close> says that every byte of a string is below \<^verbatim>\<open>0x80\<close>.\<close>

definition lowerCode :: "char \<Rightarrow> nat" where
  "lowerCode c =
     (if 65 \<le> (of_char c :: nat) \<and> (of_char c :: nat) \<le> 90 then of_char c + 32 else of_char c)"

definition isASCII :: "string \<Rightarrow> bool" where
  "isASCII s = list_all (\<lambda>c. (of_char c :: nat) < 128) s"

text \<open>The dump of a list of fields: for each field, in order, its name, a colon and a
  space, its value, and two line feeds.\<close>

definition fieldDump :: "Field list \<Rightarrow> string" where
  "fieldDump fs = concat (map (\<lambda>f. Field_Name f @ '': '' @ Field_Value f @ LF @ LF) fs)"

text \<open>The record \<^verbatim>\<open>importSite\<close> has built when it appends it, the site of the login
  at index \<open>i\<close>, and the record \<^verbatim>\<open>importSecureNote\<close> has built when it appends it.\<close>

definition builtSite ::
  "os \<Rightarrow> 'i Database \<Rightarrow> 'i Card \<Rightarrow> string list \<Rightarrow> string \<Rightarrow> string \<Rightarrow> string \<Rightarrow> string \<Rightarrow> string \<Rightarrow> site" where
  "builtSite sys db c pf df title login pass url =
     \<lparr>site_URL = url, site_Type = [], site_Username = login, site_Password = pass,
      site_Hostname = [],
      site_Extra = withLabels db c (siteExtraLoop url login pass (Card_Fields c) [] @ Card_Notes c),
      site_Name = title, site_Grouping = primaryCardLabel sys db c pf df,
      site_Fav = (if Card_Star c then ''1'' else [])\<rparr>"

definition siteAt :: "os \<Rightarrow> 'i Database \<Rightarrow> 'i Card \<Rightarrow> string list \<Rightarrow> string \<Rightarrow> nat \<Rightarrow> site" where
  "siteAt sys db c pf df i =
     builtSite sys db c pf df (titleAt c i) (loginAt c i) (passwordAt c i) (websiteAt c i)"

definition builtNote :: "os \<Rightarrow> 'i Database \<Rightarrow> 'i Card \<Rightarrow> string list \<Rightarrow> string \<Rightarrow> note_rec" where
  "builtNote sys db c pf df =
     \<lparr>note_URL = ''http://sn'', note_Username = [], note_Password = [],
      note_Extra =
        withLabels db c
          (noteExtraLoop (Card_Fields c)
             (if noteTypePrefix (primaryCardLabel sys db c pf df) \<noteq> []
              then noteTypePrefix (primaryCardLabel sys db c pf df) @ LF @ LF else [])
           @ Card_Notes c),
      note_Name = (if Card_Title c = [] then ''SecureNote '' @ Card_ID c else Card_Title c),
      note_Grouping = primaryCardLabel sys db c pf df,
      note_Fav = (if Card_Star c then ''1'' else [])\<rparr>"

section \<open>Example inputs\<close>

text \<open>A system on which every directory and file can be written, and the state at the
  start of a run. The examples are ASCII, so the comparison beyond ASCII is never
  reached; plain equality stands in for it.\<close>

definition sysOK :: os where
  "sysOK = \<lparr>os_PathSeparator = CHR ''/'', os_MkdirAll = (\<lambda>ws p. True),
            os_WriteFile = (\<lambda>ws p. True), unicode_EqualFold = (\<lambda>s t. s = t)\<rparr>"

definition emptyWorld :: world where
  "emptyWorld = \<lparr>importedSites = [], importedNotes = [], written = []\<rparr>"

definition exField :: "string \<Rightarrow> string \<Rightarrow> string \<Rightarrow> Field" where
  "exField name ty val = \<lparr>Field_Name = name, Field_FieldType = ty, Field_Value = val\<rparr>"

definition exDb :: "nat Database" where
  "exDb = \<lparr>Database_Labels =
             [\<lparr>Label_ID = 1, Label_Name = ''Credit Cards''\<rparr>,
              \<lparr>Label_ID = 2, Label_Name = ''Google''\<rparr>,
              \<lparr>Label_ID = 3, Label_Name = ''Personal''\<rparr>,
              \<lparr>Label_ID = 4, Label_Name = ''banking''\<rparr>],
           Database_Cards = []\<rparr>"

text \<open>A card without title, labels or attachments and with the given fields.\<close>

definition exCard :: "Field list \<Rightarrow> nat Card" where
  "exCard fs = \<lparr>Card_ID = ''42'', Card_Title = [], Card_Fields = fs, Card_Notes = [],
                Card_Star = False, Card_LabelIDs = [], Card_Files = [], Card_Images = [],
                Card_Deleted = False, Card_Template = False\<rparr>"

text \<open>Two logins, each followed by its own password and website, and a hint that
  repeats the first password; a credit card, which has no login.\<close>

definition twoLogins :: "Field list" where
  "twoLogins = [exField ''Login'' ''login'' ''bob'', exField ''Password'' ''password'' ''pw1'',
                exField ''Website'' ''website'' ''https://example.com'',
                exField ''Admin'' ''login'' ''root'', exField ''Admin password'' ''password'' ''pw2'',
                exField ''Console'' ''website'' ''http://admin.example.com'',
                exField ''Hint'' ''text'' ''pw1'']"

definition creditCardFields :: "Field list" where
  "creditCardFields = [exField ''Number'' ''number'' ''4111'', exField ''Owner'' ''text'' ''Bob'']"

text \<open>The credit card with the label \<^verbatim>\<open>Credit Cards\<close>; the same fields on a card
  labelled \<^verbatim>\<open>banking\<close>, in lower case; and on a card labelled \<^verbatim>\<open>Google\<close> and
  \<^verbatim>\<open>Personal\<close>.\<close>

definition creditCard :: "nat Card" where
  "creditCard = (exCard creditCardFields)\<lparr>Card_LabelIDs := [1]\<rparr>"

definition bankingCard :: "nat Card" where
  "bankingCard = (exCard creditCardFields)\<lparr>Card_LabelIDs := [4]\<rparr>"

definition googleCard :: "nat Card" where
  "googleCard = (exCard creditCardFields)\<lparr>Card_LabelIDs := [2, 3]\<rparr>"

text \<open>A login whose website carries a second URL in its query, followed by a login
  whose website is the bare scheme; and a card with a space in its title, one file and
  one image.\<close>

definition redirectFields :: "Field list" where
  "redirectFields =
     [exField ''Login'' ''login'' ''bob'', exField ''Password'' ''password'' ''pw1'',
      exField ''Website'' ''website'' ''https://example.com/?next=https://example.org'',
      exField ''Other'' ''login'' ''eve'', exField ''Other password'' ''password'' ''pw3'',
      exField ''Other site'' ''website'' ''http://'']"

definition attachmentCard :: "nat Card" where
  "attachmentCard =
     (exCard creditCardFields)
       \<lparr>Card_Title := ''My Card'',
        Card_Files := [\<lparr>File_Name = ''scan 1.pdf'', File_Value = ''%PDF''\<rparr>],
        Card_Images := [\<lparr>Image_Value = ''JFIF''\<rparr>]\<rparr>"

section \<open>Supporting lemmas\<close>

subsection \<open>Folder resolution\<close>

text \<open>What \<open>EqualFold\<close> computes: on ASCII strings, equality of the letters without
  regard to case; and after equally long ASCII beginnings that agree in this way, at
  the first byte outside ASCII, what the Unicode comparison says of the rest.\<close>

lemma lowerCode_fold:
  assumes "(of_char a :: nat) < 128" and "(of_char b :: nat) < 128"
  shows "lowerCode a = lowerCode b \<longleftrightarrow>
           (of_char b :: nat) = of_char a \<or>
           (65 \<le> min (of_char a :: nat) (of_char b) \<and> min (of_char a :: nat) (of_char b) \<le> 90 \<and>
            max (of_char a :: nat) (of_char b) = min (of_char a) (of_char b) + 32)"
  unfolding lowerCode_def min_def max_def by auto

lemma EqualFold_ASCII:
  "isASCII s \<Longrightarrow> isASCII t \<Longrightarrow> EqualFold uni s t \<longleftrightarrow> map lowerCode s = map lowerCode t"
proof (induction s t rule: list_induct2')
  case 1
  then show ?case by simp
next
  case (2 a s)
  then show ?case by simp
next
  case (3 b t)
  then show ?case by simp
next
  case (4 a s b t)
  from "4.prems" have a: "(of_char a :: nat) < 128" and b: "(of_char b :: nat) < 128"
    and s: "isASCII s" and t: "isASCII t"
    by (simp_all add: isASCII_def)
  from "4.IH" [OF s t] lowerCode_fold [OF a b] a b show ?case
    by auto
qed

lemma EqualFold_beyond_ASCII:
  assumes "isASCII p" and "isASCII q" and "length p = length q"
    and "128 \<le> (of_char a :: nat) \<or> 128 \<le> (of_char b :: nat)"
  shows "EqualFold uni (p @ a # s) (q @ b # t) \<longleftrightarrow>
           map lowerCode p = map lowerCode q \<and> uni (a # s) (b # t)"
  using assms(3,1,2,4)
proof (induction p q rule: list_induct2)
  case Nil
  then show ?case by auto
next
  case (Cons x p y q)
  from Cons.prems have x: "(of_char x :: nat) < 128" and y: "(of_char y :: nat) < 128"
    and p: "isASCII p" and q: "isASCII q"
    by (simp_all add: isASCII_def)
  from Cons.IH [OF p q Cons.prems(3)] lowerCode_fold [OF x y] x y show ?case
    by auto
qed

lemma anyLabelFolds_iff: "anyLabelFolds sys f ls \<longleftrightarrow> (\<exists>l \<in> set ls. EqualFold (unicode_EqualFold sys) f l)"
  by (induction ls) auto

lemma priorityLoop_find:
  "priorityLoop sys pf labels = find (\<lambda>f. \<exists>l \<in> set labels. EqualFold (unicode_EqualFold sys) f l) pf"
  by (induction pf) (auto simp: anyLabelFolds_iff)

lemma primaryCardLabel_find:
  "primaryCardLabel sys db c pf df =
     (if cardLabels db c = [] then df
      else case find (\<lambda>f. \<exists>l \<in> set (cardLabels db c). EqualFold (unicode_EqualFold sys) f l) pf of
             Some f \<Rightarrow> f
           | None \<Rightarrow> df @ '' - '' @ hd (cardLabels db c))"
  by (auto simp: primaryCardLabel_def Let_def priorityLoop_find hd_conv_nth split: option.splits)

subsection \<open>Attachments leave the accumulators alone\<close>

lemma dumpfile_keeps:
  "dumpfile sys name data w = (e, w') \<Longrightarrow>
     importedSites w' = importedSites w \<and> importedNotes w' = importedNotes w"
  by (auto simp: dumpfile_def Let_def split: if_splits)

lemma filesLoop_keeps:
  "filesLoop sys title i files w = (e, w') \<Longrightarrow>
     importedSites w' = importedSites w \<and> importedNotes w' = importedNotes w"
proof (induction files arbitrary: i w)
  case Nil
  then show ?case by simp
next
  case (Cons fl files)
  obtain e1 w1 where d: "dumpfile sys (title @ ''_'' @ Itoa i @ ''_'' @ File_Name fl) (File_Value fl) w = (e1, w1)"
    by (cases "dumpfile sys (title @ ''_'' @ Itoa i @ ''_'' @ File_Name fl) (File_Value fl) w")
  note k = dumpfile_keeps [OF d]
  show ?case
  proof (cases e1)
    case None
    with Cons.prems d have "filesLoop sys title (i + 1) files w1 = (e, w')" by (simp add: Let_def)
    from Cons.IH [OF this] k show ?thesis by simp
  next
    case (Some err)
    with Cons.prems d k show ?thesis by (auto simp: Let_def)
  qed
qed

lemma imagesLoop_keeps:
  "imagesLoop sys title i images w = (e, w') \<Longrightarrow>
     importedSites w' = importedSites w \<and> importedNotes w' = importedNotes w"
proof (induction images arbitrary: i w)
  case Nil
  then show ?case by simp
next
  case (Cons img images)
  obtain e1 w1 where d: "dumpfile sys (title @ ''_'' @ Itoa i @ ''.jpg'') (Image_Value img) w = (e1, w1)"
    by (cases "dumpfile sys (title @ ''_'' @ Itoa i @ ''.jpg'') (Image_Value img) w")
  note k = dumpfile_keeps [OF d]
  show ?case
  proof (cases e1)
    case None
    with Cons.prems d have "imagesLoop sys title (i + 1) images w1 = (e, w')" by (simp add: Let_def)
    from Cons.IH [OF this] k show ?thesis by simp
  next
    case (Some err)
    with Cons.prems d k show ?thesis by (auto simp: Let_def)
  qed
qed

lemma extractAttachments_keeps:
  assumes "extractAttachments sys c title w = (e, w')"
  shows "importedSites w' = importedSites w \<and> importedNotes w' = importedNotes w"
proof -
  obtain e1 w1 where f: "filesLoop sys title 0 (Card_Files c) w = (e1, w1)"
    by (cases "filesLoop sys title 0 (Card_Files c) w")
  note k = filesLoop_keeps [OF f]
  show ?thesis
  proof (cases e1)
    case None
    with assms f have "imagesLoop sys title 0 (Card_Images c) w1 = (e, w')"
      by (simp add: extractAttachments_def)
    from imagesLoop_keeps [OF this] k show ?thesis by simp
  next
    case (Some err)
    with assms f k show ?thesis by (auto simp: extractAttachments_def)
  qed
qed

subsection \<open>What one import appends\<close>

lemma importSite_effect:
  assumes "importSite sys db c pf df title login pass url w = (e, w')"
  shows "importedNotes w' = importedNotes w \<and>
         importedSites w' =
           (if e = None then importedSites w @ [builtSite sys db c pf df title login pass url]
            else importedSites w)"
proof -
  obtain e1 w1 where x: "extractAttachments sys c title w = (e1, w1)"
    by (cases "extractAttachments sys c title w")
  note k = extractAttachments_keeps [OF x]
  show ?thesis
  proof (cases e1)
    case None
    with assms x k show ?thesis
      by (auto simp: importSite_def builtSite_def Let_def)
  next
    case (Some err)
    with assms x k show ?thesis
      by (auto simp: importSite_def Let_def)
  qed
qed

lemma importSecureNote_effect:
  assumes "importSecureNote sys db c pf df w = (e, w')"
  shows "importedSites w' = importedSites w \<and>
         importedNotes w' =
           (if e = None then importedNotes w @ [builtNote sys db c pf df] else importedNotes w)"
proof -
  let ?t = "if Card_Title c = [] then ''SecureNote '' @ Card_ID c else Card_Title c"
  obtain e1 w1 where x: "extractAttachments sys c ?t w = (e1, w1)"
    by (cases "extractAttachments sys c ?t w")
  note k = extractAttachments_keeps [OF x]
  show ?thesis
  proof (cases e1)
    case None
    with assms x k show ?thesis
      by (auto simp: importSecureNote_def builtNote_def Let_def)
  next
    case (Some err)
    with assms x k show ?thesis
      by (auto simp: importSecureNote_def Let_def)
  qed
qed


subsection \<open>The scans of parse\<close>

lemma scanPassword_find: "scanPassword fs = valueOf (firstValued ''password'' fs)"
  by (induction fs) (auto simp: valueOf_def firstValued_def)

lemma scanWebsite_find: "scanWebsite fs = valueOf (firstValued ''website'' fs)"
  by (induction fs) (auto simp: valueOf_def firstValued_def)

lemma firstValued_Some: "firstValued ty fs = Some f \<Longrightarrow> Field_FieldType f = ty \<and> Field_Value f \<noteq> [] \<and> f \<in> set fs"
  unfolding firstValued_def by (auto simp: find_Some_iff)

lemma valueOf_firstValued_empty: "valueOf (firstValued ty fs) = [] \<longleftrightarrow> firstValued ty fs = None"
  by (cases "firstValued ty fs") (auto simp: valueOf_def dest: firstValued_Some)

text \<open>The first valued field of a type in \<^verbatim>\<open>fs[i:]\<close> is the field of \<open>fs\<close> at the least
  index from \<open>i\<close> on that has the type and a value.\<close>

lemma firstValued_drop_index:
  "firstValued ty (drop i fs) = Some f \<longleftrightarrow>
     (\<exists>j. i \<le> j \<and> j < length fs \<and> fs ! j = f \<and>
          Field_FieldType f = ty \<and> Field_Value f \<noteq> [] \<and>
          (\<forall>k. i \<le> k \<and> k < j \<longrightarrow>
               \<not> (Field_FieldType (fs ! k) = ty \<and> Field_Value (fs ! k) \<noteq> [])))"
  (is "?L \<longleftrightarrow> ?R")
proof
  assume ?L
  then obtain m where m: "m < length (drop i fs)"
    "Field_FieldType (drop i fs ! m) = ty \<and> Field_Value (drop i fs ! m) \<noteq> []"
    "f = drop i fs ! m"
    "\<forall>k<m. \<not> (Field_FieldType (drop i fs ! k) = ty \<and> Field_Value (drop i fs ! k) \<noteq> [])"
    unfolding firstValued_def find_Some_iff by blast
  from m(1) have b: "i + m < length fs" by simp
  have "\<forall>k. i \<le> k \<and> k < i + m \<longrightarrow>
               \<not> (Field_FieldType (fs ! k) = ty \<and> Field_Value (fs ! k) \<noteq> [])"
  proof (intro allI impI)
    fix k assume k: "i \<le> k \<and> k < i + m"
    then have "k - i < m" by arith
    with m(4) have "\<not> (Field_FieldType (drop i fs ! (k - i)) = ty \<and> Field_Value (drop i fs ! (k - i)) \<noteq> [])"
      by blast
    moreover have "drop i fs ! (k - i) = fs ! k" using k b by simp
    ultimately show "\<not> (Field_FieldType (fs ! k) = ty \<and> Field_Value (fs ! k) \<noteq> [])" by simp
  qed
  with m b show ?R
    by (intro exI [of _ "i + m"]) simp
next
  assume ?R
  then obtain j where j: "i \<le> j" "j < length fs" "fs ! j = f"
    "Field_FieldType f = ty" "Field_Value f \<noteq> []"
    "\<forall>k. i \<le> k \<and> k < j \<longrightarrow> \<not> (Field_FieldType (fs ! k) = ty \<and> Field_Value (fs ! k) \<noteq> [])"
    by blast
  have "\<exists>m<length (drop i fs).
          (Field_FieldType (drop i fs ! m) = ty \<and> Field_Value (drop i fs ! m) \<noteq> []) \<and>
          f = drop i fs ! m \<and>
          (\<forall>k<m. \<not> (Field_FieldType (drop i fs ! k) = ty \<and> Field_Value (drop i fs ! k) \<noteq> []))"
  proof (intro exI [of _ "j - i"] conjI allI impI)
    show "j - i < length (drop i fs)" using j(1,2) by simp
    have e: "drop i fs ! (j - i) = f" using j(1,2,3) by simp
    show "Field_FieldType (drop i fs ! (j - i)) = ty" unfolding e by (rule j(4))
    show "Field_Value (drop i fs ! (j - i)) \<noteq> []" unfolding e by (rule j(5))
    show "f = drop i fs ! (j - i)" unfolding e ..
    fix k assume k: "k < j - i"
    then have "i \<le> i + k \<and> i + k < j" by arith
    with j(6) have "\<not> (Field_FieldType (fs ! (i + k)) = ty \<and> Field_Value (fs ! (i + k)) \<noteq> [])"
      by blast
    moreover have "drop i fs ! k = fs ! (i + k)" using k j(2) by simp
    ultimately show "\<not> (Field_FieldType (drop i fs ! k) = ty \<and> Field_Value (drop i fs ! k) \<noteq> [])"
      by simp
  qed
  then show ?L
    unfolding firstValued_def find_Some_iff .
qed


lemma parseLoop_step:
  assumes "i < length (Card_Fields c)"
  shows "parseLoop sys db c pf df (drop i (Card_Fields c)) b w =
     (if qualifies c i
      then (case importSite sys db c pf df (titleAt c i) (loginAt c i) (passwordAt c i) (websiteAt c i) w of
              (Some err, w') \<Rightarrow> (Some (Wrap err ''importSite returned error''), b, w')
            | (None, w') \<Rightarrow> parseLoop sys db c pf df (drop (Suc i) (Card_Fields c)) True w')
      else parseLoop sys db c pf df (drop (Suc i) (Card_Fields c)) b w)"
proof -
  let ?F = "Card_Fields c"
  have d: "drop i ?F = ?F ! i # drop (Suc i) ?F"
    using assms by (simp add: Cons_nth_drop_Suc)
  have p: "scanPassword (?F ! i # drop (Suc i) ?F) = passwordAt c i"
    unfolding passwordAt_def d [symmetric] by (rule scanPassword_find)
  have u: "scanWebsite (?F ! i # drop (Suc i) ?F) = websiteAt c i"
    unfolding websiteAt_def d [symmetric] by (rule scanWebsite_find)
  have pe: "passwordAt c i = [] \<longleftrightarrow> firstValued ''password'' (drop i ?F) = None"
    unfolding passwordAt_def by (rule valueOf_firstValued_empty)
  have ue: "websiteAt c i = [] \<longleftrightarrow> firstValued ''website'' (drop i ?F) = None"
    unfolding websiteAt_def by (rule valueOf_firstValued_empty)
  show ?thesis
    unfolding d parseLoop.simps p u Let_def
    by (simp add: qualifies_def pe ue titleAt_def stripScheme_def loginAt_def)
qed

lemma parseLoop_sites:
  assumes "parseLoop sys db c pf df (drop i (Card_Fields c)) b w = (e, b', w')"
  shows "importedNotes w' = importedNotes w \<and>
         (\<exists>k \<le> length (filter (qualifies c) [i ..< length (Card_Fields c)]).
            importedSites w' =
              importedSites w @
              map (siteAt sys db c pf df) (take k (filter (qualifies c) [i ..< length (Card_Fields c)])) \<and>
            (e = None \<longrightarrow>
               k = length (filter (qualifies c) [i ..< length (Card_Fields c)]) \<and>
               b' = (b \<or> filter (qualifies c) [i ..< length (Card_Fields c)] \<noteq> [])))"
  using assms
proof (induction "length (Card_Fields c) - i" arbitrary: i b w)
  case 0
  then show ?case by simp
next
  case (Suc n)
  let ?F = "Card_Fields c"
  let ?Q = "\<lambda>j. filter (qualifies c) [j ..< length ?F]"
  from Suc.hyps have lt: "i < length ?F" and n: "n = length ?F - Suc i" by simp_all
  have up: "[i ..< length ?F] = i # [Suc i ..< length ?F]"
    using lt by (simp add: upt_conv_Cons)
  show ?case
  proof (cases "qualifies c i")
    case False
    with Suc.prems lt have "parseLoop sys db c pf df (drop (Suc i) ?F) b w = (e, b', w')"
      by (simp add: parseLoop_step)
    from Suc.hyps(1) [OF n this] False show ?thesis
      by (simp add: up)
  next
    case True
    obtain e1 w1 where imp:
      "importSite sys db c pf df (titleAt c i) (loginAt c i) (passwordAt c i) (websiteAt c i) w = (e1, w1)"
      by (cases "importSite sys db c pf df (titleAt c i) (loginAt c i) (passwordAt c i) (websiteAt c i) w")
    note eff = importSite_effect [OF imp]
    show ?thesis
    proof (cases e1)
      case (Some err)
      with Suc.prems lt True imp have "e = Some (Wrap err ''importSite returned error'')" "w' = w1"
        by (simp_all add: parseLoop_step)
      with eff Some show ?thesis
        by (intro conjI exI [of _ 0]) simp_all
    next
      case None
      with Suc.prems lt True imp
      have rest: "parseLoop sys db c pf df (drop (Suc i) ?F) True w1 = (e, b', w')"
        by (simp add: parseLoop_step)
      from Suc.hyps(1) [OF n rest] obtain k where
        nts: "importedNotes w' = importedNotes w1" and
        k: "k \<le> length (?Q (Suc i))" and
        sites: "importedSites w' = importedSites w1 @ map (siteAt sys db c pf df) (take k (?Q (Suc i)))" and
        fin: "e = None \<longrightarrow> k = length (?Q (Suc i)) \<and> b' = True"
        by auto
      have q: "?Q i = i # ?Q (Suc i)"
        using True by (simp add: up)
      have s1: "importedSites w1 = importedSites w @ [siteAt sys db c pf df i]"
        using eff None by (simp add: siteAt_def)
      show ?thesis
        unfolding q
        using nts k sites fin s1 eff
        by (intro conjI exI [of _ "Suc k"]) simp_all
    qed
  qed
qed

lemma parse_effect:
  assumes "parse sys db c pf df w = (e, w')"
  shows "\<exists>k \<le> length (qualifyingLogins c).
           importedSites w' = importedSites w @ map (siteAt sys db c pf df) (take k (qualifyingLogins c)) \<and>
           (e = None \<longrightarrow> k = length (qualifyingLogins c)) \<and>
           importedNotes w' =
             (if e = None \<and> qualifyingLogins c = [] then importedNotes w @ [builtNote sys db c pf df]
              else importedNotes w)"
proof -
  obtain e1 b1 w1 where l: "parseLoop sys db c pf df (drop 0 (Card_Fields c)) False w = (e1, b1, w1)"
    by (cases "parseLoop sys db c pf df (drop 0 (Card_Fields c)) False w")
  from parseLoop_sites [OF l] obtain k where
    nts: "importedNotes w1 = importedNotes w" and
    k: "k \<le> length (qualifyingLogins c)" and
    sites: "importedSites w1 = importedSites w @ map (siteAt sys db c pf df) (take k (qualifyingLogins c))" and
    fin: "e1 = None \<longrightarrow> k = length (qualifyingLogins c) \<and> b1 = (qualifyingLogins c \<noteq> [])"
    unfolding qualifyingLogins_def by auto
  from l have l': "parseLoop sys db c pf df (Card_Fields c) False w = (e1, b1, w1)" by simp
  show ?thesis
  proof (cases e1)
    case (Some err)
    with assms l' have "e = Some err" "w' = w1" by (simp_all add: parse_def)
    with nts k sites show ?thesis by auto
  next
    case None
    note e1 = this
    show ?thesis
    proof (cases b1)
      case True
      with assms l' e1 have "e = None" "w' = w1" by (simp_all add: parse_def)
      with nts k sites fin e1 True show ?thesis by auto
    next
      case False
      obtain e2 w2 where sn: "importSecureNote sys db c pf df w1 = (e2, w2)"
        by (cases "importSecureNote sys db c pf df w1")
      note eff = importSecureNote_effect [OF sn]
      from fin e1 False have q: "qualifyingLogins c = []" and k0: "k = length (qualifyingLogins c)" by simp_all
      show ?thesis
      proof (cases e2)
        case None
        with assms l' e1 False sn have "e = None" "w' = w2" by (simp_all add: parse_def)
        with eff None nts sites q show ?thesis by auto
      next
        case (Some err)
        with assms l' e1 False sn have "e = Some (Wrap err ''importSecureNote returned error'')" "w' = w2"
          by (simp_all add: parse_def)
        with eff Some nts sites q show ?thesis by auto
      qed
    qed
  qed
qed


subsection \<open>The sites one card adds\<close>

lemma qualifies_fields:
  assumes "qualifies c i"
  shows "loginAt c i \<noteq> [] \<and> passwordAt c i \<noteq> [] \<and> websiteAt c i \<noteq> [] \<and> titleAt c i \<noteq> []"
  using assms by (simp add: qualifies_def passwordAt_def websiteAt_def valueOf_firstValued_empty)

lemma new_sites:
  assumes "parse sys db c pf df w = (e, w')"
  shows "\<exists>k \<le> length (qualifyingLogins c).
           drop (length (importedSites w)) (importedSites w') =
             map (siteAt sys db c pf df) (take k (qualifyingLogins c)) \<and>
           (e = None \<longrightarrow> k = length (qualifyingLogins c))"
  using parse_effect [OF assms] by auto

lemma new_site_cases:
  assumes "parse sys db c pf df w = (e, w')"
    and "s \<in> set (drop (length (importedSites w)) (importedSites w'))"
  shows "\<exists>i. qualifies c i \<and> s = siteAt sys db c pf df i"
proof -
  from new_sites [OF assms(1)] obtain k where
    "drop (length (importedSites w)) (importedSites w') =
       map (siteAt sys db c pf df) (take k (qualifyingLogins c))" by blast
  with assms(2) obtain i where i: "i \<in> set (take k (qualifyingLogins c))" "s = siteAt sys db c pf df i"
    by auto
  from i(1) have "i \<in> set (qualifyingLogins c)" by (rule in_set_takeD)
  then have "qualifies c i" by (simp add: qualifyingLogins_def)
  with i(2) show ?thesis by blast
qed


subsection \<open>The loops that build the extra block\<close>

lemma siteExtraLoop_filter:
  "siteExtraLoop url login pass fs extra =
     extra @ fieldDump (filter (\<lambda>f. Field_Value f \<noteq> url \<and> Field_Value f \<noteq> login \<and>
                                     Field_Value f \<noteq> pass) fs)"
  by (induction fs arbitrary: extra) (auto simp: fieldDump_def extraFormat_def)

lemma noteExtraLoop_dump: "noteExtraLoop fs extra = extra @ fieldDump fs"
  by (induction fs arbitrary: extra) (auto simp: fieldDump_def extraFormat_def)


lemma qualifies_empty_title:
  assumes "Card_Title c = []"
  shows "qualifies c i \<longleftrightarrow>
           Field_FieldType (Card_Fields c ! i) = ''login'' \<and> loginAt c i \<noteq> [] \<and>
           passwordAt c i \<noteq> [] \<and> websiteAt c i \<noteq> [] \<and>
           ReplaceAll (ReplaceAll (websiteAt c i) ''http://'' []) ''https://'' [] \<noteq> []"
  using assms
  by (simp add: qualifies_def titleAt_def stripScheme_def passwordAt_def websiteAt_def
      valueOf_firstValued_empty)


subsection \<open>The note types\<close>

lemma noteTypePrefix_empty_iff: "noteTypePrefix g = [] \<longleftrightarrow> g \<notin> fst ` set noteTypes"
  by (simp add: noteTypePrefix_def noteTypes_def)

lemma noteTypes_no_dash: "g \<in> fst ` set noteTypes \<Longrightarrow> CHR ''-'' \<notin> set g"
  by (auto simp: noteTypes_def)

lemma noteTypes_fold_distinct:
  "\<forall>a \<in> set (map fst noteTypes). \<forall>b \<in> set (map fst noteTypes). EqualFold (unicode_EqualFold sys) a b \<longrightarrow> a = b"
  by code_simp

lemma case_variant_not_listed:
  assumes "name \<in> fst ` set noteTypes" and "EqualFold (unicode_EqualFold sys) g name" and "g \<noteq> name"
  shows "g \<notin> fst ` set noteTypes"
  using assms noteTypes_fold_distinct by auto

lemma composite_not_listed: "df @ '' - '' @ l \<notin> fst ` set noteTypes"
  using noteTypes_no_dash [of "df @ '' - '' @ l"] by auto


subsection \<open>Escaped file names\<close>

lemma of_char_bound: "(of_char c :: nat) < 256"
proof -
  have "(of_char c :: nat) mod 256 < 256" by simp
  then show ?thesis by (simp only: of_char_mod_256)
qed

lemma of_char_div16: "(of_char c :: nat) div 16 < 16"
proof (rule less_mult_imp_div_less)
  show "(of_char c :: nat) < 16 * 16" using of_char_bound [of c] by simp
qed

lemma upperhex_table:
  "\<forall>d \<in> set [0 ..< 16].
     (upperhex d = CHR ''2'' \<longrightarrow> d = 2) \<and> (upperhex d = CHR ''0'' \<longrightarrow> d = 0) \<and>
     upperhex d \<noteq> CHR ''%'' \<and> upperhex d \<noteq> CHR '' ''"
  by code_simp

lemma upperhex_digit:
  assumes "d < 16"
  shows "(upperhex d = CHR ''2'' \<longrightarrow> d = 2) \<and> (upperhex d = CHR ''0'' \<longrightarrow> d = 0) \<and>
         upperhex d \<noteq> CHR ''%'' \<and> upperhex d \<noteq> CHR '' ''"
proof -
  from assms have "d \<in> set [0 ..< 16]" by simp
  with upperhex_table show ?thesis by (rule bspec)
qed

lemma shouldEscape_percent: "shouldEscape (CHR ''%'')"
  by code_simp

lemma shouldEscape_space: "shouldEscape (CHR '' '')"
  by code_simp

lemma space_code: "(of_char c :: nat) = 32 \<Longrightarrow> c = CHR '' ''"
proof -
  assume "(of_char c :: nat) = 32"
  then have "(of_char c :: nat) = of_char (CHR '' '')" by simp
  then show ?thesis by (rule of_char_eqI)
qed

lemma hex_not_20:
  assumes "c \<noteq> CHR '' ''"
  shows "\<not> (upperhex ((of_char c :: nat) div 16) = CHR ''2'' \<and>
            upperhex ((of_char c :: nat) mod 16) = CHR ''0'')"
proof
  let ?n = "of_char c :: nat"
  assume a: "upperhex (?n div 16) = CHR ''2'' \<and> upperhex (?n mod 16) = CHR ''0''"
  from upperhex_digit [OF of_char_div16] a have hi: "?n div 16 = 2" by simp
  have "?n mod 16 < 16" by simp
  from upperhex_digit [OF this] a have lo: "?n mod 16 = 0" by simp
  have "?n = 16 * (?n div 16) + ?n mod 16" by simp
  with hi lo have "?n = 32" by simp
  with assms show False by (simp add: space_code)
qed

lemma ReplaceAll_QueryEscape: "ReplaceAll (QueryEscape s) ''%20'' '' '' = QueryEscape s"
proof (induction s)
  case Nil
  then show ?case by simp
next
  case (Cons c cs)
  let ?n = "of_char c :: nat"
  show ?case
  proof (cases "shouldEscape c")
    case False
    then have "c \<noteq> CHR ''%''" using shouldEscape_percent by auto
    with False Cons.IH show ?thesis by simp
  next
    case True
    show ?thesis
    proof (cases "c = CHR '' ''")
      case sp: True
      with True Cons.IH show ?thesis by simp
    next
      case nsp: False
      have h1: "upperhex (?n div 16) \<noteq> CHR ''%''"
        using upperhex_digit [OF of_char_div16, of c] by simp
      have h2: "upperhex (?n mod 16) \<noteq> CHR ''%''"
        using upperhex_digit [of "?n mod 16"] by simp
      from hex_not_20 [OF nsp] True nsp h1 h2 Cons.IH show ?thesis
        by auto
    qed
  qed
qed

lemma QueryEscape_no_space: "CHR '' '' \<notin> set (QueryEscape s)"
proof (induction s)
  case Nil
  then show ?case by simp
next
  case (Cons c cs)
  let ?n = "of_char c :: nat"
  have h1: "upperhex (?n div 16) \<noteq> CHR '' ''"
    using upperhex_digit [OF of_char_div16, of c] by simp
  have h2: "upperhex (?n mod 16) \<noteq> CHR '' ''"
    using upperhex_digit [of "?n mod 16"] by simp
  have "\<not> shouldEscape c \<Longrightarrow> c \<noteq> CHR '' ''"
    using shouldEscape_space by auto
  with h1 h2 Cons.IH show ?case by auto
qed

lemma dumpfile_path:
  assumes "dumpfile sys filename data w = (None, w')"
  shows "written w' = written w @ [(''attachments'' @ [os_PathSeparator sys] @ QueryEscape filename, data)] \<and>
         CHR '' '' \<notin> set (QueryEscape filename)"
  using assms
  by (auto simp: dumpfile_def Let_def ReplaceAll_QueryEscape QueryEscape_no_space split: if_splits)

section \<open>The claims\<close>

text \<open>
  Claim C2. \<^verbatim>\<open>primaryCardLabel\<close> is a function of the card's resolved labels, the
  priority list and the default folder, with three cases: without labels the default
  folder; otherwise the first entry of the priority list, in the list's order and
  returned as the list spells it, that matches some label of the card without regard to
  case; and when no entry matches, the default folder, \<^verbatim>\<open>" - "\<close> and the first
  resolved label. The match is \<^verbatim>\<open>strings.EqualFold\<close>: two ASCII strings match exactly
  when their letters agree without regard to case, and when a byte outside ASCII is
  met after equally long ASCII beginnings that agree so, the strings match exactly
  when the standard library's Unicode comparison matches the two remainders.
\<close>

theorem primaryCardLabel_three_cases:
  "primaryCardLabel sys db c pf df =
     (if cardLabels db c = [] then df
      else case find (\<lambda>f. \<exists>l \<in> set (cardLabels db c). EqualFold (unicode_EqualFold sys) f l) pf of
             Some f \<Rightarrow> f
           | None \<Rightarrow> df @ '' - '' @ hd (cardLabels db c)) \<and>
   (\<forall>f l. isASCII f \<and> isASCII l \<longrightarrow>
      (EqualFold (unicode_EqualFold sys) f l \<longleftrightarrow> map lowerCode f = map lowerCode l)) \<and>
   (\<forall>p q a s b t.
      isASCII p \<and> isASCII q \<and> length p = length q \<and>
      (128 \<le> (of_char a :: nat) \<or> 128 \<le> (of_char b :: nat)) \<longrightarrow>
      (EqualFold (unicode_EqualFold sys) (p @ a # s) (q @ b # t) \<longleftrightarrow>
         map lowerCode p = map lowerCode q \<and> unicode_EqualFold sys (a # s) (b # t)))"
proof (intro conjI allI impI)
  show "primaryCardLabel sys db c pf df =
     (if cardLabels db c = [] then df
      else case find (\<lambda>f. \<exists>l \<in> set (cardLabels db c). EqualFold (unicode_EqualFold sys) f l) pf of
             Some f \<Rightarrow> f
           | None \<Rightarrow> df @ '' - '' @ hd (cardLabels db c))"
    by (rule primaryCardLabel_find)
next
  fix f l
  assume "isASCII f \<and> isASCII l"
  then show "EqualFold (unicode_EqualFold sys) f l \<longleftrightarrow> map lowerCode f = map lowerCode l"
    by (simp add: EqualFold_ASCII)
next
  fix p q a s b t
  assume h: "isASCII p \<and> isASCII q \<and> length p = length q \<and>
          (128 \<le> (of_char a :: nat) \<or> 128 \<le> (of_char b :: nat))"
  from h have 1: "isASCII p" and 2: "isASCII q" and 3: "length p = length q"
    and 4: "128 \<le> (of_char a :: nat) \<or> 128 \<le> (of_char b :: nat)"
    by simp_all
  show "EqualFold (unicode_EqualFold sys) (p @ a # s) (q @ b # t) \<longleftrightarrow>
               map lowerCode p = map lowerCode q \<and> unicode_EqualFold sys (a # s) (b # t)"
    by (rule EqualFold_beyond_ASCII [OF 1 2 3 4])
qed

theorem primaryCardLabel_three_cases_witness:
  "cardLabels exDb bankingCard = [''banking''] \<and>
   isASCII ''Banking'' \<and> isASCII ''banking'' \<and>
   EqualFold (unicode_EqualFold sysOK) ''Banking'' ''banking'' \<and>
   primaryCardLabel sysOK exDb bankingCard [''Work'', ''Banking''] ''Imported'' = ''Banking'' \<and>
   cardLabels exDb googleCard = [''Google'', ''Personal''] \<and>
   primaryCardLabel sysOK exDb googleCard [''Work''] ''Imported'' = ''Imported - Google''"
proof -
  note B = primaryCardLabel_three_cases
    [of sysOK exDb bankingCard "[''Work'', ''Banking'']" "''Imported''"]
  note G = primaryCardLabel_three_cases [of sysOK exDb googleCard "[''Work'']" "''Imported''"]
  have l: "cardLabels exDb bankingCard = [''banking'']"
    by code_simp
  have i1: "isASCII ''Banking''" and i2: "isASCII ''banking''"
    by code_simp+
  have m: "map lowerCode ''Banking'' = map lowerCode ''banking''"
    by code_simp
  from B have "\<forall>f l. isASCII f \<and> isASCII l \<longrightarrow>
      (EqualFold (unicode_EqualFold sysOK) f l \<longleftrightarrow> map lowerCode f = map lowerCode l)"
    by (rule conjunct1 [OF conjunct2])
  then have "\<forall>l. isASCII ''Banking'' \<and> isASCII l \<longrightarrow>
      (EqualFold (unicode_EqualFold sysOK) ''Banking'' l \<longleftrightarrow>
         map lowerCode ''Banking'' = map lowerCode l)"
    by (rule spec)
  then have "isASCII ''Banking'' \<and> isASCII ''banking'' \<longrightarrow>
      (EqualFold (unicode_EqualFold sysOK) ''Banking'' ''banking'' \<longleftrightarrow>
         map lowerCode ''Banking'' = map lowerCode ''banking'')"
    by (rule spec)
  moreover have "isASCII ''Banking'' \<and> isASCII ''banking''"
    using i1 i2 by (rule conjI)
  ultimately have "EqualFold (unicode_EqualFold sysOK) ''Banking'' ''banking'' \<longleftrightarrow>
         map lowerCode ''Banking'' = map lowerCode ''banking''"
    by (rule mp)
  then have e: "EqualFold (unicode_EqualFold sysOK) ''Banking'' ''banking''"
    using m by (rule iffD2)
  have f: "find (\<lambda>f. \<exists>l \<in> set [''banking'']. EqualFold (unicode_EqualFold sysOK) f l)
             [''Work'', ''Banking''] = Some ''Banking''"
    by code_simp
  have g: "cardLabels exDb googleCard = [''Google'', ''Personal'']"
    by code_simp
  have n: "find (\<lambda>f. \<exists>l \<in> set [''Google'', ''Personal'']. EqualFold (unicode_EqualFold sysOK) f l)
             [''Work''] = None"
    by code_simp
  from B have "primaryCardLabel sysOK exDb bankingCard [''Work'', ''Banking''] ''Imported'' =
     (if cardLabels exDb bankingCard = [] then ''Imported''
      else case find (\<lambda>f. \<exists>l \<in> set (cardLabels exDb bankingCard).
                            EqualFold (unicode_EqualFold sysOK) f l) [''Work'', ''Banking''] of
             Some f \<Rightarrow> f
           | None \<Rightarrow> ''Imported'' @ '' - '' @ hd (cardLabels exDb bankingCard))"
    by (rule conjunct1)
  then have a: "primaryCardLabel sysOK exDb bankingCard [''Work'', ''Banking''] ''Imported'' = ''Banking''"
    unfolding l f by simp
  from G have "primaryCardLabel sysOK exDb googleCard [''Work''] ''Imported'' =
     (if cardLabels exDb googleCard = [] then ''Imported''
      else case find (\<lambda>f. \<exists>l \<in> set (cardLabels exDb googleCard).
                            EqualFold (unicode_EqualFold sysOK) f l) [''Work''] of
             Some f \<Rightarrow> f
           | None \<Rightarrow> ''Imported'' @ '' - '' @ hd (cardLabels exDb googleCard))"
    by (rule conjunct1)
  then have b: "primaryCardLabel sysOK exDb googleCard [''Work''] ''Imported'' = ''Imported - Google''"
    unfolding g n by simp
  show ?thesis
    by (intro conjI) (rule l i1 i2 e a g b)+
qed

text \<open>
  Claim C1. When \<^verbatim>\<open>parse\<close> returns without error on a card that has qualifying
  logins, the sites it appends are, in field order, one for each index \<open>i\<close> of a field
  of type login with a value for which the first field of type password with a value at
  an index from \<open>i\<close> on exists, the first field of type website with a value at an index
  from \<open>i\<close> on exists, and the title after the fallback is not empty. With \<open>N\<close> such
  logins exactly \<open>N\<close> sites are appended, each with that login, that password and that
  website, and no secure note is appended. (\<open>firstValued_drop_index\<close> states the first
  valued field from \<open>i\<close> on by indices.)
\<close>

theorem parse_sites_per_login:
  assumes "parse sys db c pf df w = (None, w')"
    and "qualifyingLogins c \<noteq> []"
  shows "\<exists>new. importedSites w' = importedSites w @ new \<and>
           length new = length (qualifyingLogins c) \<and>
           map (\<lambda>s. (site_Username s, site_Password s, site_URL s)) new =
             map (\<lambda>i. (loginAt c i, passwordAt c i, websiteAt c i)) (qualifyingLogins c) \<and>
           importedNotes w' = importedNotes w"
proof -
  from parse_effect [OF assms(1)] assms(2)
  have s: "importedSites w' = importedSites w @ map (siteAt sys db c pf df) (qualifyingLogins c)"
    and n: "importedNotes w' = importedNotes w"
    by auto
  have "map (\<lambda>s. (site_Username s, site_Password s, site_URL s))
          (map (siteAt sys db c pf df) (qualifyingLogins c)) =
        map (\<lambda>i. (loginAt c i, passwordAt c i, websiteAt c i)) (qualifyingLogins c)"
    by (simp add: siteAt_def builtSite_def)
  with s n show ?thesis
    by (intro exI [of _ "map (siteAt sys db c pf df) (qualifyingLogins c)"]) simp
qed

theorem parse_sites_per_login_witness:
  "parse sysOK exDb (exCard twoLogins) [] ''Imported'' emptyWorld =
     (None, snd (parse sysOK exDb (exCard twoLogins) [] ''Imported'' emptyWorld)) \<and>
   qualifyingLogins (exCard twoLogins) = [0, 3] \<and>
   (\<exists>new. importedSites (snd (parse sysOK exDb (exCard twoLogins) [] ''Imported'' emptyWorld)) =
            importedSites emptyWorld @ new \<and>
          length new = 2 \<and>
          map (\<lambda>s. (site_Username s, site_Password s, site_URL s)) new =
            [(''bob'', ''pw1'', ''https://example.com''),
             (''root'', ''pw2'', ''http://admin.example.com'')] \<and>
          importedNotes (snd (parse sysOK exDb (exCard twoLogins) [] ''Imported'' emptyWorld)) =
            importedNotes emptyWorld)"
proof -
  have h: "parse sysOK exDb (exCard twoLogins) [] ''Imported'' emptyWorld =
     (None, snd (parse sysOK exDb (exCard twoLogins) [] ''Imported'' emptyWorld))"
    by code_simp
  have q: "qualifyingLogins (exCard twoLogins) = [0, 3]"
    by code_simp
  have ne: "qualifyingLogins (exCard twoLogins) \<noteq> []"
    by (simp add: q)
  have v: "map (\<lambda>i. (loginAt (exCard twoLogins) i, passwordAt (exCard twoLogins) i,
                      websiteAt (exCard twoLogins) i)) [0, 3] =
           [(''bob'', ''pw1'', ''https://example.com''),
            (''root'', ''pw2'', ''http://admin.example.com'')]"
    by code_simp
  from parse_sites_per_login [OF h ne] obtain new where
    a: "importedSites (snd (parse sysOK exDb (exCard twoLogins) [] ''Imported'' emptyWorld)) =
          importedSites emptyWorld @ new"
    and b: "length new = length (qualifyingLogins (exCard twoLogins))"
    and c: "map (\<lambda>s. (site_Username s, site_Password s, site_URL s)) new =
          map (\<lambda>i. (loginAt (exCard twoLogins) i, passwordAt (exCard twoLogins) i,
                     websiteAt (exCard twoLogins) i)) (qualifyingLogins (exCard twoLogins))"
    and d: "importedNotes (snd (parse sysOK exDb (exCard twoLogins) [] ''Imported'' emptyWorld)) =
          importedNotes emptyWorld"
    by blast
  from b have b': "length new = 2" by (simp add: q)
  from c have c': "map (\<lambda>s. (site_Username s, site_Password s, site_URL s)) new =
           [(''bob'', ''pw1'', ''https://example.com''),
            (''root'', ''pw2'', ''http://admin.example.com'')]"
    unfolding q v .
  show ?thesis
    by (intro conjI exI [of _ new]) (rule h q a b' c' d)+
qed


text \<open>
  Claim C3. \<^verbatim>\<open>main\<close> calls \<^verbatim>\<open>parse\<close> on the cards that are neither deleted nor
  templates. When \<^verbatim>\<open>parse\<close> returns without error, the card has either added one or
  more sites and no secure note, or exactly one secure note, with empty username and
  password, and no site: never both kinds, and never nothing.
\<close>

theorem parse_site_or_note:
  assumes "parse sys db c pf df w = (None, w')"
  shows "(\<exists>new. new \<noteq> [] \<and> importedSites w' = importedSites w @ new \<and>
                 importedNotes w' = importedNotes w) \<or>
         (\<exists>n. importedNotes w' = importedNotes w @ [n] \<and>
               note_Username n = [] \<and> note_Password n = [] \<and>
               importedSites w' = importedSites w)"
proof (cases "qualifyingLogins c = []")
  case True
  with parse_effect [OF assms]
  have "importedNotes w' = importedNotes w @ [builtNote sys db c pf df]"
    and "importedSites w' = importedSites w"
    by auto
  then show ?thesis
    by (intro disjI2 exI [of _ "builtNote sys db c pf df"]) (simp add: builtNote_def)
next
  case False
  with parse_effect [OF assms]
  have "importedSites w' = importedSites w @ map (siteAt sys db c pf df) (qualifyingLogins c)"
    and "importedNotes w' = importedNotes w"
    by auto
  with False show ?thesis
    by (intro disjI1 exI [of _ "map (siteAt sys db c pf df) (qualifyingLogins c)"]) simp
qed

theorem parse_site_or_note_witness:
  "parse sysOK exDb (exCard creditCardFields) [] ''Imported'' emptyWorld =
     (None, snd (parse sysOK exDb (exCard creditCardFields) [] ''Imported'' emptyWorld)) \<and>
   importedSites (snd (parse sysOK exDb (exCard creditCardFields) [] ''Imported'' emptyWorld)) = [] \<and>
   (\<exists>n. importedNotes (snd (parse sysOK exDb (exCard creditCardFields) [] ''Imported'' emptyWorld)) = [n] \<and>
        note_Username n = [] \<and> note_Password n = [])"
proof -
  have h: "parse sysOK exDb (exCard creditCardFields) [] ''Imported'' emptyWorld =
     (None, snd (parse sysOK exDb (exCard creditCardFields) [] ''Imported'' emptyWorld))"
    by code_simp
  have s: "importedSites (snd (parse sysOK exDb (exCard creditCardFields) [] ''Imported'' emptyWorld)) = []"
    by code_simp
  from parse_site_or_note [OF h] h s show ?thesis
    by (simp add: emptyWorld_def)
qed


text \<open>
  Claim C8. Every site that \<^verbatim>\<open>parse\<close> appends, whether it ends with an error or
  not, has a URL, a username, a password and a name that are not empty.
\<close>

theorem parse_sites_nonempty_fields:
  assumes "parse sys db c pf df w = (e, w')"
  shows "\<forall>s \<in> set (drop (length (importedSites w)) (importedSites w')).
           site_URL s \<noteq> [] \<and> site_Username s \<noteq> [] \<and> site_Password s \<noteq> [] \<and> site_Name s \<noteq> []"
proof
  fix s
  assume "s \<in> set (drop (length (importedSites w)) (importedSites w'))"
  from new_site_cases [OF assms this] obtain i where "qualifies c i" "s = siteAt sys db c pf df i"
    by blast
  with qualifies_fields [of c i] show
    "site_URL s \<noteq> [] \<and> site_Username s \<noteq> [] \<and> site_Password s \<noteq> [] \<and> site_Name s \<noteq> []"
    by (simp add: siteAt_def builtSite_def)
qed

theorem parse_sites_nonempty_fields_witness:
  "length (importedSites (snd (parse sysOK exDb (exCard twoLogins) [] ''Imported'' emptyWorld))) = 2 \<and>
   site_URL (importedSites (snd (parse sysOK exDb (exCard twoLogins) [] ''Imported'' emptyWorld)) ! 1) \<noteq> [] \<and>
   site_Username (importedSites (snd (parse sysOK exDb (exCard twoLogins) [] ''Imported'' emptyWorld)) ! 1) \<noteq> [] \<and>
   site_Password (importedSites (snd (parse sysOK exDb (exCard twoLogins) [] ''Imported'' emptyWorld)) ! 1) \<noteq> [] \<and>
   site_Name (importedSites (snd (parse sysOK exDb (exCard twoLogins) [] ''Imported'' emptyWorld)) ! 1) \<noteq> []"
proof -
  let ?P = "parse sysOK exDb (exCard twoLogins) [] ''Imported'' emptyWorld"
  let ?S = "importedSites (snd ?P)"
  have h: "?P = (fst ?P, snd ?P)" by simp
  have n: "length ?S = 2" by code_simp
  have z: "drop (length (importedSites emptyWorld)) ?S = ?S"
    by (simp add: emptyWorld_def)
  have m: "?S ! 1 \<in> set ?S"
    by (rule nth_mem) (simp add: n)
  from parse_sites_nonempty_fields [OF h]
  have "\<forall>s \<in> set ?S. site_URL s \<noteq> [] \<and> site_Username s \<noteq> [] \<and> site_Password s \<noteq> [] \<and>
          site_Name s \<noteq> []"
    unfolding z .
  then have "site_URL (?S ! 1) \<noteq> [] \<and> site_Username (?S ! 1) \<noteq> [] \<and>
             site_Password (?S ! 1) \<noteq> [] \<and> site_Name (?S ! 1) \<noteq> []"
    using m by (rule bspec)
  with n show ?thesis by (rule conjI)
qed

text \<open>
  Claim C6. In every site that \<^verbatim>\<open>parse\<close> appends, the extra block starts with the
  dump of the card's fields, in the card's order, one \<^verbatim>\<open><name>: <value>\<close> entry
  followed by a blank line for each field whose value is none of the site's url,
  username and password, whatever the field's type; the card's notes and the labels
  follow. So no entry of the dump carries a value equal to the url, the login or the
  password, however many fields share it.
\<close>

theorem site_extra_excludes_by_value:
  assumes "parse sys db c pf df w = (e, w')"
  shows "\<forall>s \<in> set (drop (length (importedSites w)) (importedSites w')).
           site_Extra s =
             withLabels db c
               (fieldDump (filter (\<lambda>f. Field_Value f \<noteq> site_URL s \<and>
                                        Field_Value f \<noteq> site_Username s \<and>
                                        Field_Value f \<noteq> site_Password s) (Card_Fields c))
                @ Card_Notes c)"
proof
  fix s
  assume "s \<in> set (drop (length (importedSites w)) (importedSites w'))"
  from new_site_cases [OF assms this] obtain i where "s = siteAt sys db c pf df i"
    by blast
  then show "site_Extra s =
             withLabels db c
               (fieldDump (filter (\<lambda>f. Field_Value f \<noteq> site_URL s \<and>
                                        Field_Value f \<noteq> site_Username s \<and>
                                        Field_Value f \<noteq> site_Password s) (Card_Fields c))
                @ Card_Notes c)"
    by (simp add: siteAt_def builtSite_def siteExtraLoop_filter)
qed

theorem site_extra_excludes_by_value_witness:
  "map site_Password (importedSites (snd (parse sysOK exDb (exCard twoLogins) [] ''Imported'' emptyWorld))) =
     [''pw1'', ''pw2''] \<and>
   exField ''Hint'' ''text'' ''pw1'' \<in> set (Card_Fields (exCard twoLogins)) \<and>
   site_Extra (importedSites (snd (parse sysOK exDb (exCard twoLogins) [] ''Imported'' emptyWorld)) ! 0) =
     ''Admin: root'' @ LF @ LF @ ''Admin password: pw2'' @ LF @ LF @
     ''Console: http://admin.example.com'' @ LF @ LF"
proof -
  let ?c = "exCard twoLogins"
  let ?P = "parse sysOK exDb ?c [] ''Imported'' emptyWorld"
  let ?S = "importedSites (snd ?P)"
  have h: "?P = (fst ?P, snd ?P)" by simp
  have n: "map site_Password ?S = [''pw1'', ''pw2'']" by code_simp
  have f: "exField ''Hint'' ''text'' ''pw1'' \<in> set (Card_Fields ?c)"
    by (simp add: exCard_def twoLogins_def)
  have z: "drop (length (importedSites emptyWorld)) ?S = ?S"
    by (simp add: emptyWorld_def)
  have "length (map site_Password ?S) = 2" unfolding n by simp
  then have m: "?S ! 0 \<in> set ?S"
    by (intro nth_mem) simp
  have v: "withLabels exDb ?c
             (fieldDump (filter (\<lambda>f. Field_Value f \<noteq> site_URL (?S ! 0) \<and>
                                      Field_Value f \<noteq> site_Username (?S ! 0) \<and>
                                      Field_Value f \<noteq> site_Password (?S ! 0)) (Card_Fields ?c))
              @ Card_Notes ?c) =
           ''Admin: root'' @ LF @ LF @ ''Admin password: pw2'' @ LF @ LF @
           ''Console: http://admin.example.com'' @ LF @ LF"
    by code_simp
  from site_extra_excludes_by_value [OF h]
  have "\<forall>s \<in> set ?S.
           site_Extra s =
             withLabels exDb ?c
               (fieldDump (filter (\<lambda>f. Field_Value f \<noteq> site_URL s \<and>
                                        Field_Value f \<noteq> site_Username s \<and>
                                        Field_Value f \<noteq> site_Password s) (Card_Fields ?c))
                @ Card_Notes ?c)"
    unfolding z .
  then have "site_Extra (?S ! 0) =
             withLabels exDb ?c
               (fieldDump (filter (\<lambda>f. Field_Value f \<noteq> site_URL (?S ! 0) \<and>
                                        Field_Value f \<noteq> site_Username (?S ! 0) \<and>
                                        Field_Value f \<noteq> site_Password (?S ! 0)) (Card_Fields ?c))
                @ Card_Notes ?c)"
    using m by (rule bspec)
  then have x: "site_Extra (?S ! 0) =
     ''Admin: root'' @ LF @ LF @ ''Admin password: pw2'' @ LF @ LF @
     ''Console: http://admin.example.com'' @ LF @ LF"
    unfolding v .
  show ?thesis
    by (intro conjI) (rule n f x)+
qed

text \<open>
  Claim C9. A card that \<^verbatim>\<open>parse\<close> turns into a secure note gets a note with a name
  that is not empty; when the card's title is empty, the name is \<^verbatim>\<open>SecureNote \<close>
  followed by the card's identifier.
\<close>

theorem secure_note_name:
  assumes "parse sys db c pf df w = (None, w')"
    and "qualifyingLogins c = []"
  shows "\<exists>n. importedNotes w' = importedNotes w @ [n] \<and> note_Name n \<noteq> [] \<and>
              (Card_Title c = [] \<longrightarrow> note_Name n = ''SecureNote '' @ Card_ID c)"
proof -
  from parse_effect [OF assms(1)] assms(2)
  have "importedNotes w' = importedNotes w @ [builtNote sys db c pf df]"
    by auto
  then show ?thesis
    by (intro exI [of _ "builtNote sys db c pf df"]) (simp add: builtNote_def)
qed

theorem secure_note_name_witness:
  "parse sysOK exDb creditCard [] ''Imported'' emptyWorld =
     (None, snd (parse sysOK exDb creditCard [] ''Imported'' emptyWorld)) \<and>
   qualifyingLogins creditCard = [] \<and> Card_Title creditCard = [] \<and>
   (\<exists>n. importedNotes (snd (parse sysOK exDb creditCard [] ''Imported'' emptyWorld)) = [n] \<and>
        note_Name n = ''SecureNote 42'')"
proof -
  let ?P = "parse sysOK exDb creditCard [] ''Imported'' emptyWorld"
  have h: "?P = (None, snd ?P)" by code_simp
  have q: "qualifyingLogins creditCard = []" by code_simp
  have t: "Card_Title creditCard = []" by code_simp
  have i: "Card_ID creditCard = ''42''" by code_simp
  from secure_note_name [OF h q] obtain n where
    a: "importedNotes (snd ?P) = importedNotes emptyWorld @ [n]"
    and b: "Card_Title creditCard = [] \<longrightarrow> note_Name n = ''SecureNote '' @ Card_ID creditCard"
    by auto
  from a have a': "importedNotes (snd ?P) = [n]" by (simp add: emptyWorld_def)
  from b t i have b': "note_Name n = ''SecureNote 42''" by simp
  show ?thesis
    by (intro conjI exI [of _ n]) (rule h q t a' b')+
qed

text \<open>
  Claim C7. A card whose resolved labels are \<^verbatim>\<open>Credit Cards\<close> alone, with the priority
  list \<^verbatim>\<open>Banking\<close>, \<^verbatim>\<open>Credit Cards\<close> and without a qualifying login, adds no site and
  exactly one secure note; its grouping is \<^verbatim>\<open>Credit Cards\<close>, and its extra block
  begins with \<^verbatim>\<open>NoteType:Credit Card\<close> and a blank line, before the dump of the fields.
\<close>

theorem credit_card_note:
  assumes "parse sys db c pf df w = (None, w')"
    and "qualifyingLogins c = []"
    and "cardLabels db c = [''Credit Cards'']"
    and "pf = [''Banking'', ''Credit Cards'']"
  shows "importedSites w' = importedSites w \<and>
         (\<exists>n. importedNotes w' = importedNotes w @ [n] \<and>
               note_Grouping n = ''Credit Cards'' \<and>
               note_Extra n =
                 withLabels db c
                   (''NoteType:Credit Card'' @ LF @ LF @ fieldDump (Card_Fields c) @ Card_Notes c))"
proof -
  have f: "find (\<lambda>f. \<exists>l \<in> set [''Credit Cards'']. EqualFold (unicode_EqualFold sys) f l) [''Banking'', ''Credit Cards''] =
             Some ''Credit Cards''"
    by code_simp
  have g: "primaryCardLabel sys db c pf df = ''Credit Cards''"
    unfolding primaryCardLabel_find assms(3,4) f by simp
  have p: "noteTypePrefix ''Credit Cards'' = ''NoteType:Credit Card''"
    by code_simp
  from parse_effect [OF assms(1)] assms(2)
  have n: "importedNotes w' = importedNotes w @ [builtNote sys db c pf df]"
    and s: "importedSites w' = importedSites w"
    by auto
  have x: "note_Extra (builtNote sys db c pf df) =
             withLabels db c
               (''NoteType:Credit Card'' @ LF @ LF @ fieldDump (Card_Fields c) @ Card_Notes c)"
    by (simp add: builtNote_def g p noteExtraLoop_dump)
  have y: "note_Grouping (builtNote sys db c pf df) = ''Credit Cards''"
    by (simp add: builtNote_def g)
  show ?thesis
    by (intro conjI exI [of _ "builtNote sys db c pf df"]) (rule s n x y)+
qed

theorem credit_card_note_witness:
  "parse sysOK exDb creditCard [''Banking'', ''Credit Cards''] ''Imported'' emptyWorld =
     (None, snd (parse sysOK exDb creditCard [''Banking'', ''Credit Cards''] ''Imported'' emptyWorld)) \<and>
   qualifyingLogins creditCard = [] \<and>
   cardLabels exDb creditCard = [''Credit Cards''] \<and>
   importedSites (snd (parse sysOK exDb creditCard [''Banking'', ''Credit Cards''] ''Imported'' emptyWorld)) = [] \<and>
   (\<exists>n. importedNotes (snd (parse sysOK exDb creditCard [''Banking'', ''Credit Cards''] ''Imported'' emptyWorld)) = [n] \<and>
        note_Grouping n = ''Credit Cards'' \<and>
        note_Extra n =
          ''NoteType:Credit Card'' @ LF @ LF @ ''Number: 4111'' @ LF @ LF @ ''Owner: Bob'' @ LF @ LF @
          LF @ LF @ ''Labels: Credit Cards'')"
proof -
  let ?P = "parse sysOK exDb creditCard [''Banking'', ''Credit Cards''] ''Imported'' emptyWorld"
  have h: "?P = (None, snd ?P)" by code_simp
  have q: "qualifyingLogins creditCard = []" by code_simp
  have l: "cardLabels exDb creditCard = [''Credit Cards'']" by code_simp
  have v: "withLabels exDb creditCard
             (''NoteType:Credit Card'' @ LF @ LF @ fieldDump (Card_Fields creditCard) @ Card_Notes creditCard) =
           ''NoteType:Credit Card'' @ LF @ LF @ ''Number: 4111'' @ LF @ LF @ ''Owner: Bob'' @ LF @ LF @
           LF @ LF @ ''Labels: Credit Cards''"
    by code_simp
  from credit_card_note [OF h q l refl] obtain n where
    s: "importedSites (snd ?P) = importedSites emptyWorld"
    and a: "importedNotes (snd ?P) = importedNotes emptyWorld @ [n]"
    and b: "note_Grouping n = ''Credit Cards''"
    and c: "note_Extra n = withLabels exDb creditCard
             (''NoteType:Credit Card'' @ LF @ LF @ fieldDump (Card_Fields creditCard) @ Card_Notes creditCard)"
    by auto
  from s have s': "importedSites (snd ?P) = []" by (simp add: emptyWorld_def)
  from a have a': "importedNotes (snd ?P) = [n]" by (simp add: emptyWorld_def)
  from c have c': "note_Extra n = ''NoteType:Credit Card'' @ LF @ LF @ ''Number: 4111'' @ LF @ LF @ ''Owner: Bob'' @ LF @ LF @
           LF @ LF @ ''Labels: Credit Cards''"
    unfolding v .
  show ?thesis
    by (intro conjI exI [of _ n]) (rule h q l s' a' b c')+
qed

text \<open>
  Claim C4, as amended. For a card with an empty title on which \<^verbatim>\<open>parse\<close> returns
  without error, the appended sites are those of the logins with a scanned password and
  a scanned website whose stripped website is not empty, and the name of each is the
  scanned website with every occurrence of \<^verbatim>\<open>http://\<close> removed and then every
  occurrence of \<^verbatim>\<open>https://\<close> removed, wherever they stand and in this spelling only.
  A login whose stripped website is empty is skipped.
\<close>

theorem empty_title_site_name:
  assumes "parse sys db c pf df w = (None, w')"
    and "Card_Title c = []"
  shows "map (\<lambda>s. (site_URL s, site_Name s)) (drop (length (importedSites w)) (importedSites w')) =
         map (\<lambda>i. (websiteAt c i,
                    ReplaceAll (ReplaceAll (websiteAt c i) ''http://'' []) ''https://'' []))
           (filter (\<lambda>i. Field_FieldType (Card_Fields c ! i) = ''login'' \<and> loginAt c i \<noteq> [] \<and>
                         passwordAt c i \<noteq> [] \<and> websiteAt c i \<noteq> [] \<and>
                         ReplaceAll (ReplaceAll (websiteAt c i) ''http://'' []) ''https://'' [] \<noteq> [])
              [0 ..< length (Card_Fields c)])"
proof -
  from new_sites [OF assms(1)]
  have d: "drop (length (importedSites w)) (importedSites w') =
             map (siteAt sys db c pf df) (qualifyingLogins c)"
    by auto
  have q: "qualifyingLogins c =
           filter (\<lambda>i. Field_FieldType (Card_Fields c ! i) = ''login'' \<and> loginAt c i \<noteq> [] \<and>
                         passwordAt c i \<noteq> [] \<and> websiteAt c i \<noteq> [] \<and>
                         ReplaceAll (ReplaceAll (websiteAt c i) ''http://'' []) ''https://'' [] \<noteq> [])
              [0 ..< length (Card_Fields c)]"
    unfolding qualifyingLogins_def qualifies_empty_title [OF assms(2)] ..
  have m: "map (\<lambda>s. (site_URL s, site_Name s)) (map (siteAt sys db c pf df) (qualifyingLogins c)) =
           map (\<lambda>i. (websiteAt c i,
                    ReplaceAll (ReplaceAll (websiteAt c i) ''http://'' []) ''https://'' []))
             (qualifyingLogins c)"
    using assms(2) by (simp add: siteAt_def builtSite_def titleAt_def stripScheme_def)
  show ?thesis
    unfolding d m unfolding q ..
qed

theorem empty_title_site_name_witness:
  "parse sysOK exDb (exCard redirectFields) [] ''Imported'' emptyWorld =
     (None, snd (parse sysOK exDb (exCard redirectFields) [] ''Imported'' emptyWorld)) \<and>
   Card_Title (exCard redirectFields) = [] \<and>
   map (\<lambda>s. (site_URL s, site_Name s))
     (importedSites (snd (parse sysOK exDb (exCard redirectFields) [] ''Imported'' emptyWorld))) =
     [(''https://example.com/?next=https://example.org'', ''example.com/?next=example.org'')]"
proof -
  let ?c = "exCard redirectFields"
  let ?P = "parse sysOK exDb ?c [] ''Imported'' emptyWorld"
  have h: "?P = (None, snd ?P)" by code_simp
  have t: "Card_Title ?c = []" by code_simp
  have z: "drop (length (importedSites emptyWorld)) (importedSites (snd ?P)) = importedSites (snd ?P)"
    by (simp add: emptyWorld_def)
  have v: "map (\<lambda>i. (websiteAt ?c i,
                    ReplaceAll (ReplaceAll (websiteAt ?c i) ''http://'' []) ''https://'' []))
           (filter (\<lambda>i. Field_FieldType (Card_Fields ?c ! i) = ''login'' \<and> loginAt ?c i \<noteq> [] \<and>
                         passwordAt ?c i \<noteq> [] \<and> websiteAt ?c i \<noteq> [] \<and>
                         ReplaceAll (ReplaceAll (websiteAt ?c i) ''http://'' []) ''https://'' [] \<noteq> [])
              [0 ..< length (Card_Fields ?c)]) =
           [(''https://example.com/?next=https://example.org'', ''example.com/?next=example.org'')]"
    by code_simp
  from empty_title_site_name [OF h t]
  have r: "map (\<lambda>s. (site_URL s, site_Name s)) (importedSites (snd ?P)) =
     [(''https://example.com/?next=https://example.org'', ''example.com/?next=example.org'')]"
    unfolding z v .
  show ?thesis
    by (intro conjI) (rule h t r)+
qed


text \<open>
  Claim C4 as stated fails: the replacement is not limited to the first match. A
  website with a second URL in its query loses both schemes, where a first-match-only
  replacement would keep the second.
\<close>

theorem empty_title_first_match_counterexample:
  "Card_Title (exCard redirectFields) = [] \<and>
   map (\<lambda>s. (site_URL s, site_Name s))
     (importedSites (snd (parse sysOK exDb (exCard redirectFields) [] ''Imported'' emptyWorld))) =
     [(''https://example.com/?next=https://example.org'', ''example.com/?next=example.org'')] \<and>
   ReplaceFirst (ReplaceFirst ''https://example.com/?next=https://example.org'' ''http://'' [])
     ''https://'' [] = ''example.com/?next=https://example.org'' \<and>
   map site_Name
     (importedSites (snd (parse sysOK exDb (exCard redirectFields) [] ''Imported'' emptyWorld))) \<noteq>
     [ReplaceFirst (ReplaceFirst ''https://example.com/?next=https://example.org'' ''http://'' [])
        ''https://'' []]"
  by code_simp

text \<open>
  Claim C10, as amended. The prefix is looked up by equality of strings among the nine
  folder names of the \<^verbatim>\<open>switch\<close>: the extra block of the secure note starts with a
  prefix and a blank line exactly when the resolved grouping is one of the nine. A
  grouping that differs from one of them in the case of letters only (the priority list
  may spell it so, and folder resolution returns that spelling), or that is composed of
  the default folder, \<^verbatim>\<open>" - "\<close> and a label, gets no prefix: the extra block starts
  with the dump of the fields.
\<close>

theorem note_type_exact_match:
  assumes "parse sys db c pf df w = (None, w')"
    and "qualifyingLogins c = []"
  shows "\<exists>n. importedNotes w' = importedNotes w @ [n] \<and>
              note_Grouping n = primaryCardLabel sys db c pf df \<and>
              note_Extra n =
                withLabels db c
                  ((if note_Grouping n \<in> fst ` set noteTypes
                    then noteTypePrefix (note_Grouping n) @ LF @ LF else [])
                   @ fieldDump (Card_Fields c) @ Card_Notes c) \<and>
              ((\<exists>name \<in> fst ` set noteTypes.
                   EqualFold (unicode_EqualFold sys) (note_Grouping n) name \<and> note_Grouping n \<noteq> name) \<or>
               (\<exists>l. note_Grouping n = df @ '' - '' @ l) \<longrightarrow>
               note_Extra n = withLabels db c (fieldDump (Card_Fields c) @ Card_Notes c))"
proof -
  let ?g = "primaryCardLabel sys db c pf df"
  let ?n = "builtNote sys db c pf df"
  from parse_effect [OF assms(1)] assms(2)
  have a: "importedNotes w' = importedNotes w @ [?n]"
    by auto
  have g: "note_Grouping ?n = ?g"
    by (simp add: builtNote_def)
  have x: "note_Extra ?n =
             withLabels db c
               ((if ?g \<in> fst ` set noteTypes then noteTypePrefix ?g @ LF @ LF else [])
                @ fieldDump (Card_Fields c) @ Card_Notes c)"
    by (simp add: builtNote_def noteExtraLoop_dump noteTypePrefix_empty_iff)
  have y: "(\<exists>name \<in> fst ` set noteTypes. EqualFold (unicode_EqualFold sys) ?g name \<and> ?g \<noteq> name) \<or>
           (\<exists>l. ?g = df @ '' - '' @ l) \<longrightarrow>
           note_Extra ?n = withLabels db c (fieldDump (Card_Fields c) @ Card_Notes c)"
  proof
    assume "(\<exists>name \<in> fst ` set noteTypes. EqualFold (unicode_EqualFold sys) ?g name \<and> ?g \<noteq> name) \<or>
            (\<exists>l. ?g = df @ '' - '' @ l)"
    then have "?g \<notin> fst ` set noteTypes"
    proof
      assume "\<exists>name \<in> fst ` set noteTypes. EqualFold (unicode_EqualFold sys) ?g name \<and> ?g \<noteq> name"
      then obtain name where "name \<in> fst ` set noteTypes" "EqualFold (unicode_EqualFold sys) ?g name" "?g \<noteq> name"
        by blast
      then show ?thesis by (rule case_variant_not_listed)
    next
      assume "\<exists>l. ?g = df @ '' - '' @ l"
      then obtain l where "?g = df @ '' - '' @ l" ..
      then show ?thesis by (simp only: composite_not_listed not_False_eq_True)
    qed
    with x show "note_Extra ?n = withLabels db c (fieldDump (Card_Fields c) @ Card_Notes c)"
      by simp
  qed
  show ?thesis
  proof (intro exI [of _ ?n] conjI)
    show "importedNotes w' = importedNotes w @ [?n]"
      by (rule a)
    show "note_Grouping ?n = ?g"
      by (rule g)
    show "note_Extra ?n =
            withLabels db c
              ((if note_Grouping ?n \<in> fst ` set noteTypes
                then noteTypePrefix (note_Grouping ?n) @ LF @ LF else [])
               @ fieldDump (Card_Fields c) @ Card_Notes c)"
      unfolding g by (rule x)
    show "(\<exists>name \<in> fst ` set noteTypes.
              EqualFold (unicode_EqualFold sys) (note_Grouping ?n) name \<and> note_Grouping ?n \<noteq> name) \<or>
          (\<exists>l. note_Grouping ?n = df @ '' - '' @ l) \<longrightarrow>
          note_Extra ?n = withLabels db c (fieldDump (Card_Fields c) @ Card_Notes c)"
      unfolding g by (rule y)
  qed
qed

theorem note_type_exact_match_witness:
  "parse sysOK exDb bankingCard [''BANKING''] ''Imported'' emptyWorld =
     (None, snd (parse sysOK exDb bankingCard [''BANKING''] ''Imported'' emptyWorld)) \<and>
   qualifyingLogins bankingCard = [] \<and>
   ''Banking'' \<in> fst ` set noteTypes \<and> EqualFold (unicode_EqualFold sysOK) ''BANKING'' ''Banking'' \<and>
   (\<exists>n. importedNotes (snd (parse sysOK exDb bankingCard [''BANKING''] ''Imported'' emptyWorld)) = [n] \<and>
        note_Grouping n = ''BANKING'' \<and>
        note_Extra n =
          ''Number: 4111'' @ LF @ LF @ ''Owner: Bob'' @ LF @ LF @ LF @ LF @ ''Labels: banking'')"
proof -
  let ?P = "parse sysOK exDb bankingCard [''BANKING''] ''Imported'' emptyWorld"
  have h: "?P = (None, snd ?P)" by code_simp
  have q: "qualifyingLogins bankingCard = []" by code_simp
  have m: "''Banking'' \<in> fst ` set noteTypes" by code_simp
  have f: "EqualFold (unicode_EqualFold sysOK) ''BANKING'' ''Banking''" by code_simp
  have ne: "''BANKING'' \<noteq> ''Banking''" by simp
  have p: "primaryCardLabel sysOK exDb bankingCard [''BANKING''] ''Imported'' = ''BANKING''" by code_simp
  have v: "withLabels exDb bankingCard (fieldDump (Card_Fields bankingCard) @ Card_Notes bankingCard) =
           ''Number: 4111'' @ LF @ LF @ ''Owner: Bob'' @ LF @ LF @ LF @ LF @ ''Labels: banking''"
    by code_simp
  from note_type_exact_match [OF h q] obtain n where
    n: "importedNotes (snd ?P) = importedNotes emptyWorld @ [n] \<and>
        note_Grouping n = primaryCardLabel sysOK exDb bankingCard [''BANKING''] ''Imported'' \<and>
        note_Extra n =
          withLabels exDb bankingCard
            ((if note_Grouping n \<in> fst ` set noteTypes
              then noteTypePrefix (note_Grouping n) @ LF @ LF else [])
             @ fieldDump (Card_Fields bankingCard) @ Card_Notes bankingCard) \<and>
        ((\<exists>name \<in> fst ` set noteTypes.
             EqualFold (unicode_EqualFold sysOK) (note_Grouping n) name \<and> note_Grouping n \<noteq> name) \<or>
         (\<exists>l. note_Grouping n = ''Imported'' @ '' - '' @ l) \<longrightarrow>
         note_Extra n =
           withLabels exDb bankingCard (fieldDump (Card_Fields bankingCard) @ Card_Notes bankingCard))"
    ..
  from n have a: "importedNotes (snd ?P) = importedNotes emptyWorld @ [n]"
    by (rule conjunct1)
  from n have b: "note_Grouping n = primaryCardLabel sysOK exDb bankingCard [''BANKING''] ''Imported''"
    by (rule conjunct1 [OF conjunct2])
  from n have c: "(\<exists>name \<in> fst ` set noteTypes.
             EqualFold (unicode_EqualFold sysOK) (note_Grouping n) name \<and> note_Grouping n \<noteq> name) \<or>
         (\<exists>l. note_Grouping n = ''Imported'' @ '' - '' @ l) \<longrightarrow>
         note_Extra n =
           withLabels exDb bankingCard (fieldDump (Card_Fields bankingCard) @ Card_Notes bankingCard)"
    by (rule conjunct2 [OF conjunct2 [OF conjunct2]])
  from a have a': "importedNotes (snd ?P) = [n]" by (simp add: emptyWorld_def)
  from b have b': "note_Grouping n = ''BANKING''" unfolding p .
  have "\<exists>name \<in> fst ` set noteTypes. EqualFold (unicode_EqualFold sysOK) (note_Grouping n) name \<and> note_Grouping n \<noteq> name"
    unfolding b' using m f ne by (intro bexI [of _ "''Banking''"] conjI)
  then have "(\<exists>name \<in> fst ` set noteTypes.
             EqualFold (unicode_EqualFold sysOK) (note_Grouping n) name \<and> note_Grouping n \<noteq> name) \<or>
         (\<exists>l. note_Grouping n = ''Imported'' @ '' - '' @ l)"
    by (rule disjI1)
  with c have "note_Extra n =
           withLabels exDb bankingCard (fieldDump (Card_Fields bankingCard) @ Card_Notes bankingCard)"
    by (rule mp)
  then have c': "note_Extra n =
          ''Number: 4111'' @ LF @ LF @ ''Owner: Bob'' @ LF @ LF @ LF @ LF @ ''Labels: banking''"
    unfolding v .
  show ?thesis
    by (intro conjI exI [of _ n]) (rule h q m f a' b' c')+
qed


text \<open>
  Claim C10 as stated counts ten folder names; the \<^verbatim>\<open>switch\<close> has nine cases, with
  nine different names.
\<close>

theorem note_type_count_counterexample: "card (fst ` set noteTypes) = 9"
  by code_simp

text \<open>
  Claim C5. The name handed to the file writer should be the escaped form of the
  constructed name with every space kept as a space. The program does not do that:
  \<^verbatim>\<open>url.QueryEscape\<close> writes a space as \<^verbatim>\<open>+\<close>, so the replacement of \<^verbatim>\<open>%20\<close> by a
  space that follows never finds a match (\<open>ReplaceAll_QueryEscape\<close>), and no name
  written contains a space (\<open>dumpfile_path\<close>). The card titled \<^verbatim>\<open>My Card\<close> with the
  file \<^verbatim>\<open>scan 1.pdf\<close> and one image writes the two paths below.
\<close>

theorem attachment_space_escaped:
  "Card_Title attachmentCard = ''My Card'' \<and>
   map File_Name (Card_Files attachmentCard) = [''scan 1.pdf''] \<and>
   map fst (written (snd (parse sysOK exDb attachmentCard [] ''Imported'' emptyWorld))) =
     [''attachments/My+Card_0_scan+1.pdf'', ''attachments/My+Card_0.jpg'']"
  by code_simp


end
